theory Spec2Isabelle
  imports Complex_Main
begin

section \<open>Python values, dictionaries and builtins\<close>

text \<open>
  The repository passes diets, personas and logs around as plain Python dictionaries
  whose values are loosely typed.  A dictionary is a partial map from keys to values;
  a nested dictionary value keeps its items as an association list.  Strings are lists
  of (ASCII) characters.

  A Python float is a \<open>pyfloat\<close>: the real number that the double stands for, or one of
  the three special values.  Arithmetic on finite values is exact (the rounding of the
  binary format to 53 bits and its overflow are not modelled, and \<^verbatim>\<open>-0.0\<close> is \<open>0\<close>); the
  special values follow the IEEE rules, comparisons with \<^verbatim>\<open>nan\<close> are false.
\<close>

datatype pyfloat = Fin real | PInf | NInf | NaN

fun fneg :: "pyfloat \<Rightarrow> pyfloat" where
  "fneg (Fin a) = Fin (- a)"
| "fneg PInf = NInf"
| "fneg NInf = PInf"
| "fneg NaN = NaN"

fun fadd :: "pyfloat \<Rightarrow> pyfloat \<Rightarrow> pyfloat" where
  "fadd (Fin a) (Fin b) = Fin (a + b)"
| "fadd NaN y = NaN"
| "fadd x NaN = NaN"
| "fadd PInf NInf = NaN"
| "fadd NInf PInf = NaN"
| "fadd PInf y = PInf"
| "fadd x PInf = PInf"
| "fadd NInf y = NInf"
| "fadd x NInf = NInf"

definition fsub :: "pyfloat \<Rightarrow> pyfloat \<Rightarrow> pyfloat" where
  "fsub x y = fadd x (fneg y)"

fun is_neg :: "pyfloat \<Rightarrow> bool" where
  "is_neg (Fin a) = (a < 0)"
| "is_neg NInf = True"
| "is_neg x = False"

fun fmul :: "pyfloat \<Rightarrow> pyfloat \<Rightarrow> pyfloat" where
  "fmul (Fin a) (Fin b) = Fin (a * b)"
| "fmul NaN y = NaN"
| "fmul x NaN = NaN"
| "fmul x y = (if x = Fin 0 \<or> y = Fin 0 then NaN
               else if is_neg x = is_neg y then PInf else NInf)"

text \<open>\<^verbatim>\<open>x / c\<close> for a float literal \<open>c\<close> other than zero.\<close>

fun fdivc :: "pyfloat \<Rightarrow> real \<Rightarrow> pyfloat" where
  "fdivc (Fin a) c = Fin (a / c)"
| "fdivc PInf c = (if 0 < c then PInf else NInf)"
| "fdivc NInf c = (if 0 < c then NInf else PInf)"
| "fdivc NaN c = NaN"

fun fabs :: "pyfloat \<Rightarrow> pyfloat" where
  "fabs (Fin a) = Fin \<bar>a\<bar>"
| "fabs NaN = NaN"
| "fabs x = PInf"

text \<open>\<^verbatim>\<open>x < y\<close> and \<^verbatim>\<open>x <= y\<close> on floats.\<close>

fun f_less :: "pyfloat \<Rightarrow> pyfloat \<Rightarrow> bool" where
  "f_less (Fin a) (Fin b) = (a < b)"
| "f_less NaN y = False"
| "f_less x NaN = False"
| "f_less x NInf = False"
| "f_less NInf y = True"
| "f_less PInf y = False"
| "f_less x PInf = True"

definition f_le :: "pyfloat \<Rightarrow> pyfloat \<Rightarrow> bool" where
  "f_le x y = (f_less x y \<or> (x = y \<and> x \<noteq> NaN))"

text \<open>
  The builtins \<^verbatim>\<open>max(a, b)\<close> and \<^verbatim>\<open>min(a, b)\<close> keep their first argument unless the
  second is greater (smaller): with a \<^verbatim>\<open>nan\<close> the result depends on the order.
\<close>

definition py_max :: "pyfloat \<Rightarrow> pyfloat \<Rightarrow> pyfloat" where
  "py_max a b = (if f_less a b then b else a)"

definition py_min :: "pyfloat \<Rightarrow> pyfloat \<Rightarrow> pyfloat" where
  "py_min a b = (if f_less b a then b else a)"

datatype pyval =
    VNone
  | VBool bool
  | VInt int
  | VNum pyfloat
  | VStr string
  | VList "pyval list"
  | VDict "(string \<times> pyval) list"

type_synonym pydict = "string \<Rightarrow> pyval option"

datatype py_error =
  AttributeError | KeyError | IndexError | ValueError | TypeError | OverflowError
  | ZeroDivisionError

text \<open>\<^verbatim>\<open>bool(v)\<close>: the truth value Python gives to a value.\<close>

fun truthy :: "pyval \<Rightarrow> bool" where
  "truthy VNone = False"
| "truthy (VBool b) = b"
| "truthy (VInt i) = (i \<noteq> 0)"
| "truthy (VNum r) = (r \<noteq> Fin 0)"
| "truthy (VStr s) = (s \<noteq> [])"
| "truthy (VList l) = (l \<noteq> [])"
| "truthy (VDict d) = (d \<noteq> [])"

text \<open>\<^verbatim>\<open>d.get(k)\<close> and \<^verbatim>\<open>d.get(k, default)\<close>.\<close>

definition dget :: "pydict \<Rightarrow> string \<Rightarrow> pyval" where
  "dget d k = (case d k of None \<Rightarrow> VNone | Some v \<Rightarrow> v)"

definition dget_or :: "pydict \<Rightarrow> string \<Rightarrow> pyval \<Rightarrow> pyval" where
  "dget_or d k dflt = (case d k of None \<Rightarrow> dflt | Some v \<Rightarrow> v)"

text \<open>\<^verbatim>\<open>str.strip()\<close> over the ASCII white space characters.\<close>

definition is_space :: "char \<Rightarrow> bool" where
  "is_space c = (c \<in> set [CHR 0x09, CHR 0x0A, CHR 0x0B, CHR 0x0C, CHR 0x0D,
                           CHR 0x1C, CHR 0x1D, CHR 0x1E, CHR 0x1F, CHR 0x20])"

definition strip_chars :: "(char \<Rightarrow> bool) \<Rightarrow> string \<Rightarrow> string" where
  "strip_chars P s = rev (dropWhile P (rev (dropWhile P s)))"

definition strip :: "string \<Rightarrow> string" where
  "strip s = strip_chars is_space s"

text \<open>
  \<^verbatim>\<open>round(x, nd)\<close> on a float: the nearest multiple of \<open>10 ^ -nd\<close>; the special values
  are returned as they are.  Python rounds the binary double.  Where the real number of
  the model lies exactly halfway between two multiples, the double lies on one side of
  it or on it, so the neighbour that Python returns is not a function of the real number
  alone: the parameter \<open>tie\<close> says for which arguments it is the upper one.
\<close>

definition round_nearest :: "(real \<Rightarrow> bool) \<Rightarrow> real \<Rightarrow> int" where
  "round_nearest tie x =
     (let f = \<lfloor>x\<rfloor>; d = x - of_int f
      in if d < 1/2 then f else if d > 1/2 then f + 1
         else if tie x then f + 1 else f)"

definition round_dec :: "(real \<Rightarrow> bool) \<Rightarrow> nat \<Rightarrow> real \<Rightarrow> real" where
  "round_dec tie nd x = of_int (round_nearest tie (x * 10 ^ nd)) / 10 ^ nd"

definition py_round :: "(real \<Rightarrow> bool) \<Rightarrow> nat \<Rightarrow> pyfloat \<Rightarrow> pyfloat" where
  "py_round tie nd x = (case x of Fin a \<Rightarrow> Fin (round_dec tie nd a) | _ \<Rightarrow> x)"

text \<open>Ties to the even multiple: what Python does when the double itself is the tie.\<close>

definition half_even :: "real \<Rightarrow> bool" where
  "half_even x = odd \<lfloor>x\<rfloor>"

text \<open>
  \<^verbatim>\<open>float(i)\<close> on an integer raises \<^verbatim>\<open>OverflowError\<close> when \<open>i\<close> is too large for
  a double: from \<open>2 ^ 1024 - 2 ^ 970\<close> on, rounding to nearest would leave the range.
\<close>

definition int_too_large :: "int \<Rightarrow> bool" where
  "int_too_large i = (\<bar>i\<bar> \<ge> 2 ^ 1024 - 2 ^ 970)"

text \<open>\<^verbatim>\<open>str.lower()\<close> on ASCII letters, and the substring test \<^verbatim>\<open>p in s\<close>.\<close>

definition lower_char :: "char \<Rightarrow> char" where
  "lower_char c =
     (let n = (of_char c :: nat) in if 65 \<le> n \<and> n \<le> 90 then char_of (n + 32) else c)"

definition lower :: "string \<Rightarrow> string" where
  "lower s = map lower_char s"

fun contains :: "string \<Rightarrow> string \<Rightarrow> bool" where
  "contains [] p = (p = [])"
| "contains (c # cs) p = (take (length p) (c # cs) = p \<or> contains cs p)"

text \<open>\<^verbatim>\<open>str(n)\<close> for an integer: its decimal digits, with a minus sign when negative.\<close>

definition digit_char :: "nat \<Rightarrow> char" where
  "digit_char d = char_of (48 + d)"

fun str_nat :: "nat \<Rightarrow> string" where
  "str_nat n = (if n < 10 then [digit_char n] else str_nat (n div 10) @ [digit_char (n mod 10)])"

definition str_int :: "int \<Rightarrow> string" where
  "str_int i = (if i < 0 then CHR ''-'' # str_nat (nat (- i)) else str_nat (nat i))"

text \<open>\<^verbatim>\<open>x or d\<close>.\<close>

definition py_or :: "pyval \<Rightarrow> pyval \<Rightarrow> pyval" where
  "py_or v d = (if truthy v then v else d)"

text \<open>
  \<^verbatim>\<open>float(v)\<close> without a handler around it: the exception is the result.  \<open>fl\<close> is
  the parser of \<^verbatim>\<open>float(str)\<close>.
\<close>

definition py_float :: "(string \<Rightarrow> pyfloat option) \<Rightarrow> pyval \<Rightarrow> py_error + pyfloat" where
  "py_float fl v =
     (case v of
        VNone \<Rightarrow> Inl TypeError
      | VBool b \<Rightarrow> Inr (Fin (if b then 1 else 0))
      | VInt i \<Rightarrow> (if int_too_large i then Inl OverflowError else Inr (Fin (of_int i)))
      | VNum r \<Rightarrow> Inr r
      | VStr s \<Rightarrow> (case fl s of None \<Rightarrow> Inl ValueError | Some r \<Rightarrow> Inr r)
      | VList l \<Rightarrow> Inl TypeError
      | VDict d \<Rightarrow> Inl TypeError)"

text \<open>
  \<^verbatim>\<open>str(v)\<close>: a string is itself; \<open>rp\<close> is Python's rendering of every other value.
\<close>

definition py_str :: "(pyval \<Rightarrow> string) \<Rightarrow> pyval \<Rightarrow> string" where
  "py_str rp v = (case v of VStr s \<Rightarrow> s | _ \<Rightarrow> rp v)"

text \<open>\<^verbatim>\<open>(d.get(k) or "").lower()\<close>: a non-string that is not falsy has no \<^verbatim>\<open>lower\<close>.\<close>

definition get_lower :: "pydict \<Rightarrow> string \<Rightarrow> py_error + string" where
  "get_lower d k =
     (case py_or (dget d k) (VStr []) of
        VStr s \<Rightarrow> Inr (lower s)
      | _ \<Rightarrow> Inl AttributeError)"

definition ebind :: "'e + 'a \<Rightarrow> ('a \<Rightarrow> 'e + 'b) \<Rightarrow> 'e + 'b" where
  "ebind m f = (case m of Inl e \<Rightarrow> Inl e | Inr x \<Rightarrow> f x)"

section \<open>The seeded random generator\<close>

text \<open>
  Every module derives its generator as
  \<^verbatim>\<open>random.Random(int(hashlib.sha256(s.encode()).hexdigest()[:12], 16))\<close>.  The digest
  and the generator are Python library code; they are parameters of the model:
  \<open>rnd_sha\<close> is the 48-bit integer of the digest, \<open>rnd_new\<close> the generator state made
  from a seed, \<open>rnd_random\<close> one call of \<^verbatim>\<open>random()\<close> and \<open>rnd_below n\<close> one call of
  \<^verbatim>\<open>_randbelow(n)\<close>, each returning the next state.
\<close>

record 'g pyrandom =
  rnd_sha :: "string \<Rightarrow> nat"
  rnd_new :: "nat \<Rightarrow> 'g"
  rnd_random :: "'g \<Rightarrow> real \<times> 'g"
  rnd_below :: "nat \<Rightarrow> 'g \<Rightarrow> nat \<times> 'g"

text \<open>The contract of the library: \<^verbatim>\<open>random()\<close> is in \<open>[0, 1)\<close>, \<^verbatim>\<open>_randbelow(n)\<close> below \<open>n\<close>.\<close>

definition rng_ok :: "'g pyrandom \<Rightarrow> bool" where
  "rng_ok R =
     ((\<forall>g. 0 \<le> fst (rnd_random R g) \<and> fst (rnd_random R g) < 1) \<and>
      (\<forall>n g. 0 < n \<longrightarrow> fst (rnd_below R n g) < n))"

text \<open>\<^verbatim>\<open>rnd.uniform(a, b)\<close> is \<^verbatim>\<open>a + (b - a) * self.random()\<close>.\<close>

definition uniform :: "'g pyrandom \<Rightarrow> real \<Rightarrow> real \<Rightarrow> 'g \<Rightarrow> real \<times> 'g" where
  "uniform R a b g = (let (u, g') = rnd_random R g in (a + (b - a) * u, g'))"

text \<open>
  \<^verbatim>\<open>rnd.randrange(start, stop)\<close> with \<open>start < stop\<close> is
  \<^verbatim>\<open>start + self._randbelow(stop - start)\<close>; \<^verbatim>\<open>randint(a, b)\<close> is \<^verbatim>\<open>randrange(a, b + 1)\<close>.
  An empty range raises \<^verbatim>\<open>ValueError\<close>.
\<close>

definition randrange :: "'g pyrandom \<Rightarrow> int \<Rightarrow> int \<Rightarrow> 'g \<Rightarrow> py_error + int \<times> 'g" where
  "randrange R start stop g =
     (if stop - start > 0
      then (let (n, g') = rnd_below R (nat (stop - start)) g in Inr (start + int n, g'))
      else Inl ValueError)"

definition randint :: "'g pyrandom \<Rightarrow> int \<Rightarrow> int \<Rightarrow> 'g \<Rightarrow> py_error + int \<times> 'g" where
  "randint R a b g = randrange R a (b + 1) g"

section \<open>utils_json_v12: the diet-shape normalizer\<close>

definition SAUDI_MEAL_NAMES :: "string list" where
  "SAUDI_MEAL_NAMES =
    [''Masoub (banana+dates+milk)'',
     ''Chicken Kabsa (lean rice)'',
     ''Jareesh with laban'',
     ''Ful medames + tamees'',
     ''Balila cup (chickpeas)'',
     ''Grilled Hammour + rice + salad'',
     ''Labneh + cucumbers + olives + bread'',
     ''Tuna salad + lemon + olive oil'',
     ''Margoog (light) + salad'',
     ''Thareed (lean beef + veg)'',
     ''Harees (light) + salad'',
     ''Egg shakshouka + bread'',
     ''Date + laban snack'']"

text \<open>
  \<^verbatim>\<open>_f(v, default)\<close>: lenient float coercion.  \<open>fl\<close> is Python's \<^verbatim>\<open>float(str)\<close>
  parser (\<open>None\<close> when it raises \<^verbatim>\<open>ValueError\<close>); every exception of \<^verbatim>\<open>float(v)\<close>
  is caught and replaced by the default.
\<close>

definition py_f :: "(string \<Rightarrow> pyfloat option) \<Rightarrow> pyval \<Rightarrow> pyfloat \<Rightarrow> pyfloat" where
  "py_f fl v dflt =
     (case v of
        VNone \<Rightarrow> dflt
      | VStr s \<Rightarrow> (if strip s = [] then dflt
                  else (case fl s of None \<Rightarrow> dflt | Some r \<Rightarrow> r))
      | VBool b \<Rightarrow> Fin (if b then 1 else 0)
      | VInt i \<Rightarrow> (if int_too_large i then dflt else Fin (of_int i))
      | VNum r \<Rightarrow> r
      | VList l \<Rightarrow> dflt
      | VDict d \<Rightarrow> dflt)"

definition ensure_meal_label :: "pyval \<Rightarrow> nat \<Rightarrow> string" where
  "ensure_meal_label val idx =
     (case val of
        VStr s \<Rightarrow> (if strip s \<noteq> [] then strip s
                  else SAUDI_MEAL_NAMES ! (idx mod length SAUDI_MEAL_NAMES))
      | _ \<Rightarrow> SAUDI_MEAL_NAMES ! (idx mod length SAUDI_MEAL_NAMES))"

text \<open>\<^verbatim>\<open>key.split("_")[0]\<close>: the part of the key before its first underscore.\<close>

definition key_prefix :: "string \<Rightarrow> string" where
  "key_prefix key = takeWhile (\<lambda>c. c \<noteq> CHR ''_'') key"

definition pull_nested_meal_num ::
  "(string \<Rightarrow> pyfloat option) \<Rightarrow> pydict \<Rightarrow> string \<Rightarrow> pyfloat \<Rightarrow> pyfloat" where
  "pull_nested_meal_num fl obj key fallback =
     (case obj key of
        Some v \<Rightarrow> py_f fl v fallback
      | None \<Rightarrow>
          (case dget obj (key_prefix key @ ''_meal'') of
             VDict nested \<Rightarrow>
               (case map_of nested key of
                  Some v \<Rightarrow> py_f fl v fallback
                | None \<Rightarrow> fallback)
           | _ \<Rightarrow> fallback))"

definition totals :: "string list" where
  "totals = [''Total_kcal_target_kcal'', ''Total_carbs_g'', ''Total_fat_g'',
             ''Total_protein_g'', ''Total_fiber_g'', ''Total_sodium_mg'']"

definition meals :: "string list" where
  "meals = [''1st'', ''2nd'', ''3rd'', ''4th'']"

definition mkeys :: "string list" where
  "mkeys = [''kcal_target_kcal'', ''carbs_g'', ''fat_g'', ''protein_g'', ''fiber_g'',
            ''sodium_mg'']"

text \<open>The first loop: every total is coerced to a float, a missing one to \<open>0.0\<close>.\<close>

definition coerce_total :: "(string \<Rightarrow> pyfloat option) \<Rightarrow> string \<Rightarrow> pydict \<Rightarrow> pydict" where
  "coerce_total fl k obj = obj(k \<mapsto> VNum (py_f fl (dget_or obj k (VNum (Fin 0))) (Fin 0)))"

text \<open>The second loop, one meal: the label first, then the six numbers of the meal.\<close>

definition pull_meal_key ::
  "(string \<Rightarrow> pyfloat option) \<Rightarrow> string \<Rightarrow> string \<Rightarrow> pydict \<Rightarrow> pydict" where
  "pull_meal_key fl m mk obj =
     (let full = m @ ''_meal_'' @ mk
      in obj(full \<mapsto> VNum (pull_nested_meal_num fl obj full (Fin 0))))"

definition shape_meal ::
  "(string \<Rightarrow> pyfloat option) \<Rightarrow> nat \<times> string \<Rightarrow> pydict \<Rightarrow> pydict" where
  "shape_meal fl im obj =
     (let i = fst im; m = snd im; name_key = m @ ''_meal'';
          obj1 = obj(name_key \<mapsto> VStr (ensure_meal_label (dget obj name_key) i))
      in fold (pull_meal_key fl m) mkeys obj1)"

text \<open>
  \<^verbatim>\<open>obj[k]\<close> where the key has just been assigned a float; any other content reads as
  \<open>0.0\<close> here (the normalizer and the diversifier never reach such a read).
\<close>

definition num_at :: "pydict \<Rightarrow> string \<Rightarrow> pyfloat" where
  "num_at obj k = (case obj k of Some (VNum r) \<Rightarrow> r | _ \<Rightarrow> Fin 0)"

text \<open>The local \<^verbatim>\<open>_sum(mm)\<close>: Python's \<^verbatim>\<open>sum\<close> starts from \<open>0\<close> and adds in order.\<close>

definition meal_sum :: "pydict \<Rightarrow> string \<Rightarrow> pyfloat" where
  "meal_sum obj mm = foldl fadd (Fin 0) (map (\<lambda>m. num_at obj (m @ ''_meal_'' @ mm)) meals)"

definition fill_total :: "string \<times> string \<Rightarrow> pydict \<Rightarrow> pydict" where
  "fill_total tk obj =
     (if num_at obj (fst tk) = Fin 0 then obj(fst tk \<mapsto> VNum (meal_sum obj (snd tk))) else obj)"

definition default_note :: string where
  "default_note = ''Saudi-inspired plan. Adjust portions if training load changes.''"

definition ensure_diet_shape :: "(string \<Rightarrow> pyfloat option) \<Rightarrow> pydict \<Rightarrow> pydict" where
  "ensure_diet_shape fl obj =
     (let obj1 = fold (coerce_total fl) totals obj;
          obj2 = fold (shape_meal fl) (enumerate 0 meals) obj1;
          obj3 = fold fill_total (zip totals mkeys) obj2
      in if \<not> truthy (dget obj3 ''Note'') then obj3(''Note'' \<mapsto> VStr default_note)
         else obj3)"

section \<open>utils_json_v12: the diversification engine\<close>

text \<open>\<^verbatim>\<open>xs[i]\<close> on a list: a negative index counts from the end.\<close>

definition py_index :: "'a list \<Rightarrow> int \<Rightarrow> py_error + 'a" where
  "py_index xs i =
     (let n = int (length xs)
      in if 0 \<le> i \<and> i < n then Inr (xs ! nat i)
         else if - n \<le> i \<and> i < 0 then Inr (xs ! nat (n + i))
         else Inl IndexError)"

text \<open>
  \<^verbatim>\<open>_dirichlet4\<close>: four draws, each shifted by \<open>0.3\<close>, divided by their sum; a
  division by zero raises.
\<close>

definition dirichlet4 :: "'g pyrandom \<Rightarrow> 'g \<Rightarrow> py_error + real list \<times> 'g" where
  "dirichlet4 R g =
     (let (r1, g1) = rnd_random R g;
          (r2, g2) = rnd_random R g1;
          (r3, g3) = rnd_random R g2;
          (r4, g4) = rnd_random R g3;
          xs = [r1 + 3/10, r2 + 3/10, r3 + 3/10, r4 + 3/10];
          s = foldl (+) 0 xs
      in if s = 0 then Inl ZeroDivisionError else Inr (map (\<lambda>x. x / s) xs, g4))"

definition split4 ::
  "'g pyrandom \<Rightarrow> (real \<Rightarrow> bool) \<Rightarrow> pyfloat \<Rightarrow> 'g \<Rightarrow> py_error + pyfloat list \<times> 'g" where
  "split4 R tie tot g =
     (if f_le tot (Fin 0) then Inr ([Fin 0, Fin 0, Fin 0, Fin 0], g)
      else ebind (dirichlet4 R g)
             (\<lambda>(w, g'). Inr (map (\<lambda>wi. py_round tie 1 (fmul tot (Fin wi))) w, g')))"

definition tol :: real where
  "tol = 1 / 10 ^ 6"

text \<open>
  \<^verbatim>\<open>_all_meals_identical\<close>: the loop over the meals after the first and the six keys
  stops at the first difference; \<^verbatim>\<open>obj[...]\<close> on a missing key raises.
\<close>

fun first_meal :: "pydict \<Rightarrow> string list \<Rightarrow> py_error + (string \<times> pyval) list" where
  "first_meal obj [] = Inr []"
| "first_meal obj (k # ks) =
     (case obj (''1st_meal_'' @ k) of
        None \<Rightarrow> Inl KeyError
      | Some v \<Rightarrow> ebind (first_meal obj ks) (\<lambda>rest. Inr ((k, v) # rest)))"

fun meals_differ ::
  "(string \<Rightarrow> pyfloat option) \<Rightarrow> pydict \<Rightarrow> (string \<times> pyval) list \<Rightarrow> (string \<times> string) list
     \<Rightarrow> py_error + bool" where
  "meals_differ fl obj first [] = Inr False"
| "meals_differ fl obj first ((m, k) # rest) =
     (case obj (m @ ''_meal_'' @ k) of
        None \<Rightarrow> Inl KeyError
      | Some v \<Rightarrow>
          (case map_of first k of
             None \<Rightarrow> Inl KeyError
           | Some v1 \<Rightarrow>
               if f_less (Fin tol) (fabs (fsub (py_f fl v (Fin 0)) (py_f fl v1 (Fin 0))))
               then Inr True
               else meals_differ fl obj first rest))"

definition all_meals_identical ::
  "(string \<Rightarrow> pyfloat option) \<Rightarrow> (pyval \<Rightarrow> string) \<Rightarrow> pydict \<Rightarrow> py_error + bool" where
  "all_meals_identical fl rp obj =
     ebind (first_meal obj mkeys) (\<lambda>first.
     ebind (meals_differ fl obj first (List.product (tl meals) mkeys)) (\<lambda>differ.
       if differ then Inr False
       else (let n0 = py_str rp (dget_or obj ''1st_meal'' (VStr []))
             in if list_ex (\<lambda>m. py_str rp (dget_or obj (m @ ''_meal'') (VStr [])) \<noteq> n0) (tl meals)
                then Inr False else Inr True)))"

definition same_names :: "(pyval \<Rightarrow> string) \<Rightarrow> pydict \<Rightarrow> pydict \<Rightarrow> bool" where
  "same_names rp a b =
     list_all (\<lambda>m. py_str rp (dget_or a (m @ ''_meal'') (VStr []))
                      = py_str rp (dget_or b (m @ ''_meal'') (VStr []))) meals"

definition close_totals :: "(string \<Rightarrow> pyfloat option) \<Rightarrow> pydict \<Rightarrow> pydict \<Rightarrow> bool" where
  "close_totals fl a b =
     list_all (\<lambda>k. f_le (fabs (fsub (py_f fl (dget_or a k (VInt 0)) (Fin 0))
                                     (py_f fl (dget_or b k (VInt 0)) (Fin 0)))) (Fin tol))
       totals"

text \<open>\<^verbatim>\<open>_similar_overview\<close>: \<^verbatim>\<open>not b\<close> holds for \<^verbatim>\<open>None\<close> and for the empty dictionary.\<close>

definition similar_overview ::
  "(string \<Rightarrow> pyfloat option) \<Rightarrow> (pyval \<Rightarrow> string) \<Rightarrow> pydict \<Rightarrow> pydict option \<Rightarrow> bool" where
  "similar_overview fl rp a b =
     (case b of
        None \<Rightarrow> False
      | Some b' \<Rightarrow> if b' = Map.empty then False
                   else same_names rp a b' \<or> close_totals fl a b')"

definition goal_kcal :: "pyfloat \<Rightarrow> string \<Rightarrow> pyfloat" where
  "goal_kcal w_kg goal =
     (let base = fmul (Fin 28) w_kg;
          base1 = (if contains goal ''fat'' then fsub base (Fin 250) else base);
          base2 = (if contains goal ''muscle'' then fadd base1 (Fin 150) else base1)
      in py_max (Fin 1600) (py_min (Fin 3600) base2))"

definition jitter ::
  "'g pyrandom \<Rightarrow> (real \<Rightarrow> bool) \<Rightarrow> pyfloat \<Rightarrow> real \<Rightarrow> 'g \<Rightarrow> pyfloat \<times> 'g" where
  "jitter R tie v pct g =
     (let lo = 1 - pct; hi = 1 + pct; (u, g') = uniform R lo hi g
      in (py_round tie 1 (fmul v (Fin u)), g'))"

definition persona_weight :: "(string \<Rightarrow> pyfloat option) \<Rightarrow> pydict \<Rightarrow> pyfloat" where
  "persona_weight fl persona = py_f fl (dget persona ''Weight_kg'') (Fin 75)"

definition re_totals_with_jitter ::
  "'g pyrandom \<Rightarrow> (real \<Rightarrow> bool) \<Rightarrow> (string \<Rightarrow> pyfloat option) \<Rightarrow> pydict \<Rightarrow> pydict \<Rightarrow> 'g
     \<Rightarrow> py_error + pydict \<times> 'g" where
  "re_totals_with_jitter R tie fl obj persona g =
     (let w = persona_weight fl persona
      in ebind (get_lower persona ''Primary_goal'') (\<lambda>goal.
         let (kcal, g1) = jitter R tie (goal_kcal w goal) (6/100) g;
             (p, g2) =
               (if contains goal ''muscle''
                then jitter R tie (py_min (py_max (fmul (Fin (19/10)) w) (Fin 110)) (Fin 190))
                       (6/100) g1
                else if contains goal ''fat''
                then jitter R tie (py_min (py_max (fmul (Fin (18/10)) w) (Fin 100)) (Fin 180))
                       (6/100) g1
                else jitter R tie (py_min (py_max (fmul (Fin (17/10)) w) (Fin 95)) (Fin 175))
                       (6/100) g1);
             (f, g3) =
               (if contains goal ''muscle''
                then jitter R tie (fdivc (fmul kcal (Fin (27/100))) 9) (8/100) g2
                else if contains goal ''fat''
                then jitter R tie (fdivc (fmul kcal (Fin (30/100))) 9) (8/100) g2
                else jitter R tie (fdivc (fmul kcal (Fin (28/100))) 9) (8/100) g2);
             c = py_max (Fin 90)
                   (fdivc (fsub kcal (fadd (fmul p (Fin 4)) (fmul f (Fin 9)))) 4);
             (fu, g4) = uniform R 24 36 g3;
             fiber = py_round tie 1 (Fin fu);
             (su, g5) = uniform R (- 350) 350 g4;
             sodium = py_round tie 0
                        (py_max (Fin 1500) (py_min (Fin 3200)
                           (fadd (fadd (Fin 2000) (fmul (fsub w (Fin 70)) (Fin 8))) (Fin su))))
         in Inr (obj(''Total_kcal_target_kcal'' \<mapsto> VNum (py_round tie 1 kcal),
                     ''Total_carbs_g'' \<mapsto> VNum (py_round tie 1 c),
                     ''Total_fat_g'' \<mapsto> VNum (py_round tie 1 f),
                     ''Total_protein_g'' \<mapsto> VNum (py_round tie 1 p),
                     ''Total_fiber_g'' \<mapsto> VNum fiber,
                     ''Total_sodium_mg'' \<mapsto> VNum sodium), g5)))"

text \<open>Step 2 of \<^verbatim>\<open>diversify_meals\<close>: a window of four consecutive names of the pool.\<close>

definition chosen_names :: "int \<Rightarrow> py_error + string list" where
  "chosen_names offset =
     ebind (py_index SAUDI_MEAL_NAMES (offset + 0)) (\<lambda>n0.
     ebind (py_index SAUDI_MEAL_NAMES (offset + 1)) (\<lambda>n1.
     ebind (py_index SAUDI_MEAL_NAMES (offset + 2)) (\<lambda>n2.
     ebind (py_index SAUDI_MEAL_NAMES (offset + 3)) (\<lambda>n3.
       Inr [n0, n1, n2, n3]))))"

definition set_meal_name :: "string list \<Rightarrow> nat \<times> string \<Rightarrow> pydict \<Rightarrow> pydict" where
  "set_meal_name chosen it obj = obj(snd it @ ''_meal'' \<mapsto> VStr (chosen ! fst it))"

text \<open>Step 3: the six totals are split in this order, each split drawing four numbers.\<close>

definition set_meal_split ::
  "pyfloat list \<Rightarrow> pyfloat list \<Rightarrow> pyfloat list \<Rightarrow> pyfloat list \<Rightarrow> pyfloat list
     \<Rightarrow> pyfloat list \<Rightarrow> nat \<times> string \<Rightarrow> pydict \<Rightarrow> pydict" where
  "set_meal_split sk sc sf sp sfi sna it obj =
     (let i = fst it; tag = snd it
      in obj(tag @ ''_meal_kcal_target_kcal'' \<mapsto> VNum (sk ! i),
             tag @ ''_meal_carbs_g'' \<mapsto> VNum (sc ! i),
             tag @ ''_meal_fat_g'' \<mapsto> VNum (sf ! i),
             tag @ ''_meal_protein_g'' \<mapsto> VNum (sp ! i),
             tag @ ''_meal_fiber_g'' \<mapsto> VNum (sfi ! i),
             tag @ ''_meal_sodium_mg'' \<mapsto> VNum (sna ! i)))"

definition diet_seed :: "string \<Rightarrow> string \<Rightarrow> int \<Rightarrow> string" where
  "diet_seed pid week_id nonce = pid @ ''|'' @ week_id @ ''|diet|'' @ str_int nonce"

text \<open>One pass of \<^verbatim>\<open>diversify_meals\<close> up to its final test: the candidate diet.\<close>

definition diversify_pass ::
  "'g pyrandom \<Rightarrow> (real \<Rightarrow> bool) \<Rightarrow> (string \<Rightarrow> pyfloat option) \<Rightarrow> pydict \<Rightarrow> string \<Rightarrow> string \<Rightarrow> pydict \<Rightarrow> int
     \<Rightarrow> py_error + pydict" where
  "diversify_pass R tie fl obj pid week_id persona nonce =
     (let rnd = rnd_new R (rnd_sha R (diet_seed pid week_id nonce))
      in ebind (re_totals_with_jitter R tie fl obj persona rnd) (\<lambda>(obj1, g1).
         ebind (randrange R 0 (int (length SAUDI_MEAL_NAMES) - 4) g1) (\<lambda>(offset, g2).
         ebind (chosen_names offset) (\<lambda>chosen.
           let obj2 = fold (set_meal_name chosen) (enumerate 0 meals) obj1
           in ebind (split4 R tie (num_at obj2 ''Total_kcal_target_kcal'') g2) (\<lambda>(sk, g3).
              ebind (split4 R tie (num_at obj2 ''Total_carbs_g'') g3) (\<lambda>(sc, g4).
              ebind (split4 R tie (num_at obj2 ''Total_fat_g'') g4) (\<lambda>(sf, g5).
              ebind (split4 R tie (num_at obj2 ''Total_protein_g'') g5) (\<lambda>(sp, g6).
              ebind (split4 R tie (num_at obj2 ''Total_fiber_g'') g6) (\<lambda>(sfi, g7).
              ebind (split4 R tie (num_at obj2 ''Total_sodium_mg'') g7) (\<lambda>(sna, g8).
                Inr (fold (set_meal_split sk sc sf sp sfi sna) (enumerate 0 meals)
                       obj2)))))))))))"

text \<open>
  The function itself: when the candidate is degenerate or similar to last week's diet it
  calls itself with \<open>nonce + 1\<close> on the dictionary it has just rewritten.  Nothing bounds
  the depth, so a call that never returns is the value \<open>None\<close>.
\<close>

partial_function (option) diversify_meals ::
  "'g pyrandom \<Rightarrow> (real \<Rightarrow> bool) \<Rightarrow> (string \<Rightarrow> pyfloat option) \<Rightarrow> (pyval \<Rightarrow> string)
     \<Rightarrow> pydict \<Rightarrow> string \<Rightarrow> string \<Rightarrow> pydict \<Rightarrow> pydict option \<Rightarrow> int
     \<Rightarrow> (py_error + pydict) option" where
  "diversify_meals R tie fl rp obj pid week_id persona last_week_obj nonce =
     (case diversify_pass R tie fl obj pid week_id persona nonce of
        Inl e \<Rightarrow> Some (Inl e)
      | Inr obj' \<Rightarrow>
          (case all_meals_identical fl rp obj' of
             Inl e \<Rightarrow> Some (Inl e)
           | Inr ident \<Rightarrow>
               if ident \<or> similar_overview fl rp obj' last_week_obj
               then diversify_meals R tie fl rp obj' pid week_id persona last_week_obj (nonce + 1)
               else Some (Inr obj')))"

section \<open>Auxiliary notions for the normalizer\<close>

text \<open>The value a total has after the first loop, and a per-meal number after the second.\<close>

definition tot0 :: "(string \<Rightarrow> pyfloat option) \<Rightarrow> pydict \<Rightarrow> string \<Rightarrow> pyfloat" where
  "tot0 fl obj k = py_f fl (dget_or obj k (VNum (Fin 0))) (Fin 0)"

definition mac0 :: "(string \<Rightarrow> pyfloat option) \<Rightarrow> pydict \<Rightarrow> string \<Rightarrow> pyfloat" where
  "mac0 fl obj k = (case obj k of Some v \<Rightarrow> py_f fl v (Fin 0) | None \<Rightarrow> Fin 0)"

definition sum0 :: "(string \<Rightarrow> pyfloat option) \<Rightarrow> pydict \<Rightarrow> string \<Rightarrow> pyfloat" where
  "sum0 fl obj mm =
     fadd (fadd (fadd (mac0 fl obj (''1st_meal_'' @ mm)) (mac0 fl obj (''2nd_meal_'' @ mm)))
             (mac0 fl obj (''3rd_meal_'' @ mm))) (mac0 fl obj (''4th_meal_'' @ mm))"

definition tot1 :: "(string \<Rightarrow> pyfloat option) \<Rightarrow> pydict \<Rightarrow> string \<Rightarrow> string \<Rightarrow> pyfloat" where
  "tot1 fl obj T mm = (if tot0 fl obj T = Fin 0 then sum0 fl obj mm else tot0 fl obj T)"

definition note1 :: "pydict \<Rightarrow> pyval" where
  "note1 obj = (if truthy (dget obj ''Note'') then dget obj ''Note'' else VStr default_note)"

text \<open>The dictionary after the first two loops, and after the totals have been filled.\<close>

definition shaped :: "(string \<Rightarrow> pyfloat option) \<Rightarrow> pydict \<Rightarrow> pydict" where
  "shaped fl obj =
     obj(''Total_kcal_target_kcal'' \<mapsto> VNum (tot0 fl obj ''Total_kcal_target_kcal''),
         ''Total_carbs_g'' \<mapsto> VNum (tot0 fl obj ''Total_carbs_g''),
         ''Total_fat_g'' \<mapsto> VNum (tot0 fl obj ''Total_fat_g''),
         ''Total_protein_g'' \<mapsto> VNum (tot0 fl obj ''Total_protein_g''),
         ''Total_fiber_g'' \<mapsto> VNum (tot0 fl obj ''Total_fiber_g''),
         ''Total_sodium_mg'' \<mapsto> VNum (tot0 fl obj ''Total_sodium_mg''),
         ''1st_meal'' \<mapsto> VStr (ensure_meal_label (dget obj ''1st_meal'') 0),
         ''1st_meal_kcal_target_kcal'' \<mapsto> VNum (mac0 fl obj ''1st_meal_kcal_target_kcal''),
         ''1st_meal_carbs_g'' \<mapsto> VNum (mac0 fl obj ''1st_meal_carbs_g''),
         ''1st_meal_fat_g'' \<mapsto> VNum (mac0 fl obj ''1st_meal_fat_g''),
         ''1st_meal_protein_g'' \<mapsto> VNum (mac0 fl obj ''1st_meal_protein_g''),
         ''1st_meal_fiber_g'' \<mapsto> VNum (mac0 fl obj ''1st_meal_fiber_g''),
         ''1st_meal_sodium_mg'' \<mapsto> VNum (mac0 fl obj ''1st_meal_sodium_mg''),
         ''2nd_meal'' \<mapsto> VStr (ensure_meal_label (dget obj ''2nd_meal'') 1),
         ''2nd_meal_kcal_target_kcal'' \<mapsto> VNum (mac0 fl obj ''2nd_meal_kcal_target_kcal''),
         ''2nd_meal_carbs_g'' \<mapsto> VNum (mac0 fl obj ''2nd_meal_carbs_g''),
         ''2nd_meal_fat_g'' \<mapsto> VNum (mac0 fl obj ''2nd_meal_fat_g''),
         ''2nd_meal_protein_g'' \<mapsto> VNum (mac0 fl obj ''2nd_meal_protein_g''),
         ''2nd_meal_fiber_g'' \<mapsto> VNum (mac0 fl obj ''2nd_meal_fiber_g''),
         ''2nd_meal_sodium_mg'' \<mapsto> VNum (mac0 fl obj ''2nd_meal_sodium_mg''),
         ''3rd_meal'' \<mapsto> VStr (ensure_meal_label (dget obj ''3rd_meal'') 2),
         ''3rd_meal_kcal_target_kcal'' \<mapsto> VNum (mac0 fl obj ''3rd_meal_kcal_target_kcal''),
         ''3rd_meal_carbs_g'' \<mapsto> VNum (mac0 fl obj ''3rd_meal_carbs_g''),
         ''3rd_meal_fat_g'' \<mapsto> VNum (mac0 fl obj ''3rd_meal_fat_g''),
         ''3rd_meal_protein_g'' \<mapsto> VNum (mac0 fl obj ''3rd_meal_protein_g''),
         ''3rd_meal_fiber_g'' \<mapsto> VNum (mac0 fl obj ''3rd_meal_fiber_g''),
         ''3rd_meal_sodium_mg'' \<mapsto> VNum (mac0 fl obj ''3rd_meal_sodium_mg''),
         ''4th_meal'' \<mapsto> VStr (ensure_meal_label (dget obj ''4th_meal'') 3),
         ''4th_meal_kcal_target_kcal'' \<mapsto> VNum (mac0 fl obj ''4th_meal_kcal_target_kcal''),
         ''4th_meal_carbs_g'' \<mapsto> VNum (mac0 fl obj ''4th_meal_carbs_g''),
         ''4th_meal_fat_g'' \<mapsto> VNum (mac0 fl obj ''4th_meal_fat_g''),
         ''4th_meal_protein_g'' \<mapsto> VNum (mac0 fl obj ''4th_meal_protein_g''),
         ''4th_meal_fiber_g'' \<mapsto> VNum (mac0 fl obj ''4th_meal_fiber_g''),
         ''4th_meal_sodium_mg'' \<mapsto> VNum (mac0 fl obj ''4th_meal_sodium_mg''))"

definition filled :: "(string \<Rightarrow> pyfloat option) \<Rightarrow> pydict \<Rightarrow> pydict" where
  "filled fl obj =
     (shaped fl obj)(''Total_kcal_target_kcal'' \<mapsto> VNum (tot1 fl obj ''Total_kcal_target_kcal'' ''kcal_target_kcal''),
         ''Total_carbs_g'' \<mapsto> VNum (tot1 fl obj ''Total_carbs_g'' ''carbs_g''),
         ''Total_fat_g'' \<mapsto> VNum (tot1 fl obj ''Total_fat_g'' ''fat_g''),
         ''Total_protein_g'' \<mapsto> VNum (tot1 fl obj ''Total_protein_g'' ''protein_g''),
         ''Total_fiber_g'' \<mapsto> VNum (tot1 fl obj ''Total_fiber_g'' ''fiber_g''),
         ''Total_sodium_mg'' \<mapsto> VNum (tot1 fl obj ''Total_sodium_mg'' ''sodium_mg''))"

definition diet_keys :: "string list" where
  "diet_keys = totals @
     concat (map (\<lambda>m. (m @ ''_meal'') # map (\<lambda>mk. m @ ''_meal_'' @ mk) mkeys) meals)"

definition schema_keys :: "string list" where
  "schema_keys = ''Note'' # diet_keys"

section \<open>Auxiliary notions for the diversification engine\<close>

text \<open>What holds of a value returned by \<^verbatim>\<open>diversify_meals\<close> started at \<open>nonce\<close>.\<close>

definition accepted ::
  "'g pyrandom \<Rightarrow> (real \<Rightarrow> bool) \<Rightarrow> (string \<Rightarrow> pyfloat option) \<Rightarrow> (pyval \<Rightarrow> string)
     \<Rightarrow> string \<Rightarrow> string \<Rightarrow> pydict \<Rightarrow> pydict option \<Rightarrow> int \<Rightarrow> py_error + pydict \<Rightarrow> bool" where
  "accepted R tie fl rp pid week_id persona last_week nonce y =
     (case y of
        Inl e \<Rightarrow> True
      | Inr r \<Rightarrow>
          (\<exists>obj' n. nonce \<le> n \<and> diversify_pass R tie fl obj' pid week_id persona n = Inr r)
          \<and> all_meals_identical fl rp r = Inr False
          \<and> \<not> similar_overview fl rp r last_week)"

text \<open>
  The state of the generator after the five draws of \<^verbatim>\<open>_re_totals_with_jitter\<close>, and the
  offset of the name window that the next draw gives.
\<close>

definition after_totals :: "'g pyrandom \<Rightarrow> 'g \<Rightarrow> 'g" where
  "after_totals R g =
     snd (rnd_random R (snd (rnd_random R (snd (rnd_random R (snd (rnd_random R
       (snd (rnd_random R g)))))))))"

definition pass_offset :: "'g pyrandom \<Rightarrow> string \<Rightarrow> string \<Rightarrow> int \<Rightarrow> int" where
  "pass_offset R pid week_id nonce =
     int (fst (rnd_below R 9 (after_totals R (rnd_new R (rnd_sha R (diet_seed pid week_id nonce))))))"

definition state_of :: "py_error + 'a \<times> 'g \<Rightarrow> 'g \<Rightarrow> 'g" where
  "state_of y g = (case y of Inr x \<Rightarrow> snd x | Inl e \<Rightarrow> g)"

text \<open>Applying a function to the value of a result that is not an error.\<close>

definition emap :: "('a \<Rightarrow> 'b) \<Rightarrow> 'e + 'a \<Rightarrow> 'e + 'b" where
  "emap h y = (case y of Inl e \<Rightarrow> Inl e | Inr x \<Rightarrow> Inr (h x))"


definition shares_of :: "(real \<Rightarrow> bool) \<Rightarrow> real \<Rightarrow> real list \<Rightarrow> pyfloat list" where
  "shares_of tie t ws = map (\<lambda>w. Fin (round_dec tie 1 (t * w))) ws"


text \<open>\<^verbatim>\<open>abs(a - b) <= d\<close> on floats.\<close>

definition close_to :: "real \<Rightarrow> pyfloat \<Rightarrow> pyfloat \<Rightarrow> bool" where
  "close_to d a b = f_le (fabs (fsub a b)) (Fin d)"

text \<open>The dictionary a pass of \<^verbatim>\<open>diversify_meals\<close> builds from totals, names and shares.\<close>

definition pass_dict ::
  "pydict \<Rightarrow> pyfloat \<Rightarrow> pyfloat \<Rightarrow> pyfloat \<Rightarrow> pyfloat \<Rightarrow> pyfloat \<Rightarrow> pyfloat \<Rightarrow> string list
     \<Rightarrow> pyfloat list \<Rightarrow> pyfloat list \<Rightarrow> pyfloat list \<Rightarrow> pyfloat list \<Rightarrow> pyfloat list
     \<Rightarrow> pyfloat list \<Rightarrow> pydict" where
  "pass_dict obj tk tc tf tp tfi tna chosen sk sc sf sp sfi sna =
     fold (set_meal_split sk sc sf sp sfi sna) (enumerate 0 meals)
       (fold (set_meal_name chosen) (enumerate 0 meals)
          (obj(''Total_kcal_target_kcal'' \<mapsto> VNum tk,
              ''Total_carbs_g'' \<mapsto> VNum tc,
              ''Total_fat_g'' \<mapsto> VNum tf,
              ''Total_protein_g'' \<mapsto> VNum tp,
              ''Total_fiber_g'' \<mapsto> VNum tfi,
              ''Total_sodium_mg'' \<mapsto> VNum tna)))"

section \<open>Concrete inputs for the normalizer\<close>

text \<open>A \<^verbatim>\<open>float(str)\<close> parser that accepts nothing; the inputs below hold no strings to parse.\<close>

definition no_float :: "string \<Rightarrow> pyfloat option" where
  "no_float s = None"

text \<open>A diet that states a calorie total and the carbohydrates of each meal, nothing else.\<close>

definition diet_partial :: pydict where
  "diet_partial =
     [''Total_kcal_target_kcal'' \<mapsto> VNum (Fin 2000),
      ''1st_meal_carbs_g'' \<mapsto> VNum (Fin 10), ''2nd_meal_carbs_g'' \<mapsto> VNum (Fin 10),
      ''3rd_meal_carbs_g'' \<mapsto> VNum (Fin 10), ''4th_meal_carbs_g'' \<mapsto> VNum (Fin 10)]"

section \<open>Concrete inputs for the diversification engine\<close>

text \<open>
  The library generator on two seeds.  \<open>sha_table\<close> holds the 48-bit integers that
  \<^verbatim>\<open>int(hashlib.sha256(s.encode("utf-8")).hexdigest()[:12], 16)\<close> gives for the seed
  strings of persona \<open>P01\<close> in week \<open>Week_2025_47\<close> with the nonces 0 and 1, and
  \<open>mt_table\<close> the first 64 outputs of the Mersenne Twister of \<^verbatim>\<open>random.Random(seed)\<close>
  for each of them (what \<^verbatim>\<open>getrandbits(32)\<close> returns, in order).  A pass of
  \<^verbatim>\<open>diversify_meals\<close> consumes 59 or 60 of them.
\<close>

definition sha_table :: "(string \<times> nat) list" where
  "sha_table =
     [(''P01|Week_2025_47|diet|0'', 63112693729251),
      (''P01|Week_2025_47|diet|1'', 192364518666900)]"

definition mt_table :: "(nat \<times> nat list) list" where
  "mt_table =
     [(63112693729251,
       [
        477946779, 3140238219, 3520137140, 3981242228, 1353983509, 810787676,
        3352020408, 3713695554, 1098737844, 2462223470, 2964781987, 2350673641,
        2984836346, 2465073557, 3847144434, 2298424434, 2971199075, 2216489619,
        1093243710, 3235689716, 435098284, 1872773185, 1919282739, 2111532294,
        363406256, 2757005635, 2557194297, 771661670, 1223398639, 3414430752,
        1005895504, 1469793962, 4126304286, 3736225333, 2583852663, 389460377,
        296999447, 2048680416, 2701511219, 1097417291, 794696326, 764336119,
        1461516849, 3095045864, 3313220133, 2281918418, 1687092330, 3947397181,
        3352812826, 1907803289, 557150426, 2648918708, 301619421, 2762332735,
        2388060849, 324937311, 540671448, 1147044384, 4139798192, 2412808655,
        2445865406, 1130827172, 2808951895, 1883218569]),
      (192364518666900,
       [
        3323553821, 620737075, 308201893, 823569893, 1618708415, 4100542590,
        1323227974, 343780766, 3303127364, 3722459771, 1214107522, 3738504521,
        2251645698, 1947648401, 1341077336, 4208154378, 2854378933, 2758507704,
        4268746892, 2534102365, 171002130, 1976237121, 1692442803, 3379190244,
        716590501, 2082762547, 2993662587, 2451807693, 2596041731, 670633165,
        580657813, 3493673854, 3062938616, 2752969094, 2568958947, 2754873469,
        3476830616, 2894162198, 194315968, 1575661783, 849628375, 394117285,
        3085474320, 1992684389, 2809719143, 3394653004, 1741351336, 2543419383,
        3528769663, 3833012057, 4148549628, 1195603912, 1842046413, 1324495749,
        3148388878, 1593814845, 2135911837, 322257347, 4066448174, 2277442663,
        28713359, 2344998890, 1127011868, 1453409970])]"

text \<open>
  CPython's \<^verbatim>\<open>random()\<close> makes a 53-bit fraction from two outputs, and \<^verbatim>\<open>_randbelow(n)\<close>
  takes the top \<^verbatim>\<open>n.bit_length()\<close> bits of one output (for \<open>n\<close> below \<open>2 ^ 32\<close>) until the
  value is below \<open>n\<close>.  Where the recorded outputs end, both return \<open>0\<close>.
\<close>

fun mt_random :: "nat list \<Rightarrow> real \<times> nat list" where
  "mt_random (a # b # ws) =
     (real ((a mod 4294967296) div 32 * 67108864 + (b mod 4294967296) div 64)
        / 9007199254740992, ws)"
| "mt_random ws = (0, [])"

fun bit_length :: "nat \<Rightarrow> nat" where
  "bit_length n = (if n = 0 then 0 else Suc (bit_length (n div 2)))"

declare bit_length.simps [simp del]

fun mt_getbelow :: "nat \<Rightarrow> nat \<Rightarrow> nat list \<Rightarrow> nat \<times> nat list" where
  "mt_getbelow n k [] = (0, [])"
| "mt_getbelow n k (w # ws) =
     (let r = (w mod 4294967296) div 2 ^ (32 - k)
      in if r < n then (r, ws) else mt_getbelow n k ws)"

definition mt_rng :: "nat list pyrandom" where
  "mt_rng = \<lparr> rnd_sha = (\<lambda>s. case map_of sha_table s of Some n \<Rightarrow> n | None \<Rightarrow> 0),
              rnd_new = (\<lambda>seed. case map_of mt_table seed of Some ws \<Rightarrow> ws | None \<Rightarrow> []),
              rnd_random = mt_random,
              rnd_below = (\<lambda>n ws. mt_getbelow n (bit_length n) ws) \<rparr>"

text \<open>A rendering of non-string values; the inputs below hold no value that needs it.\<close>

definition no_repr :: "pyval \<Rightarrow> string" where
  "no_repr v = ''?''"

definition persona_mg :: pydict where
  "persona_mg = [''Weight_kg'' \<mapsto> VNum (Fin 80), ''Primary_goal'' \<mapsto> VStr ''muscle gain'']"


definition the_diet :: "py_error + pydict \<Rightarrow> pydict" where
  "the_diet y = (case y of Inl e \<Rightarrow> Map.empty | Inr d \<Rightarrow> d)"

text \<open>The candidates of persona \<open>P01\<close> in week \<open>Week_2025_47\<close> for the nonces 0 and 1.\<close>

definition diet0 :: pydict where
  "diet0 = the_diet (diversify_pass mt_rng half_even no_float Map.empty ''P01'' ''Week_2025_47''
                       persona_mg 0)"

definition diet1 :: pydict where
  "diet1 = the_diet (diversify_pass mt_rng half_even no_float diet0 ''P01'' ''Week_2025_47''
                       persona_mg 1)"

text \<open>A last week's diet with the four meal names of the candidate of nonce 0.\<close>

definition last0 :: pydict where
  "last0 = [''1st_meal'' \<mapsto> VStr ''Margoog (light) + salad'',
            ''2nd_meal'' \<mapsto> VStr ''Thareed (lean beef + veg)'',
            ''3rd_meal'' \<mapsto> VStr ''Harees (light) + salad'',
            ''4th_meal'' \<mapsto> VStr ''Egg shakshouka + bread'']"

definition meal_names :: "pydict \<Rightarrow> pyval list" where
  "meal_names d = map (\<lambda>m. dget d (m @ ''_meal'')) meals"


section \<open>Properties of the normalizer\<close>

lemmas lookup = fun_upd_apply list.inject list.distinct char.inject simp_thms if_False if_True

lemma fadd_0_left [simp]: "fadd (Fin 0) x = x"
  by (cases x) simp_all

lemma fadd_0_right [simp]: "fadd x (Fin 0) = x"
  by (cases x) simp_all

lemma dget_upd [simp]: "dget (obj(k \<mapsto> v)) k' = (if k' = k then v else dget obj k')"
  by (simp add: dget_def)

lemma dget_or_upd [simp]:
  "dget_or (obj(k \<mapsto> v)) k' d = (if k' = k then v else dget_or obj k' d)"
  by (simp add: dget_or_def)

lemma num_at_upd [simp]:
  "num_at (obj(k \<mapsto> v)) k' =
     (if k' = k then (case v of VNum r \<Rightarrow> r | _ \<Rightarrow> Fin 0) else num_at obj k')"
  by (simp add: num_at_def)

lemma mac0_upd [simp]:
  "mac0 fl (obj(k \<mapsto> v)) k' = (if k' = k then py_f fl v (Fin 0) else mac0 fl obj k')"
  by (simp add: mac0_def)

lemma tot0_upd [simp]:
  "tot0 fl (obj(k \<mapsto> v)) k' = (if k' = k then py_f fl v (Fin 0) else tot0 fl obj k')"
  by (simp add: tot0_def)

lemma py_f_num [simp]: "py_f fl (VNum r) d = r"
  by (simp add: py_f_def)

lemma pull_nested_str:
  "dget obj (key_prefix key @ ''_meal'') = VStr s \<Longrightarrow>
   pull_nested_meal_num fl obj key (Fin 0) = mac0 fl obj key"
  by (simp add: pull_nested_meal_num_def mac0_def split: option.splits)

lemma enum_meals: "enumerate 0 meals = [(0, ''1st''), (1, ''2nd''), (2, ''3rd''), (3, ''4th'')]"
  by (simp add: meals_def)

lemma stage1:
  "fold (coerce_total fl) totals obj =
     obj(''Total_kcal_target_kcal'' \<mapsto> VNum (tot0 fl obj ''Total_kcal_target_kcal''),
         ''Total_carbs_g'' \<mapsto> VNum (tot0 fl obj ''Total_carbs_g''),
         ''Total_fat_g'' \<mapsto> VNum (tot0 fl obj ''Total_fat_g''),
         ''Total_protein_g'' \<mapsto> VNum (tot0 fl obj ''Total_protein_g''),
         ''Total_fiber_g'' \<mapsto> VNum (tot0 fl obj ''Total_fiber_g''),
         ''Total_sodium_mg'' \<mapsto> VNum (tot0 fl obj ''Total_sodium_mg''))"
  by (simp add: totals_def coerce_total_def tot0_def)

lemma shape_meal_1st:
  "shape_meal fl (i, ''1st'') obj =
     obj(''1st_meal'' \<mapsto> VStr (ensure_meal_label (dget obj ''1st_meal'') i),
         ''1st_meal_kcal_target_kcal'' \<mapsto> VNum (mac0 fl obj ''1st_meal_kcal_target_kcal''),
         ''1st_meal_carbs_g'' \<mapsto> VNum (mac0 fl obj ''1st_meal_carbs_g''),
         ''1st_meal_fat_g'' \<mapsto> VNum (mac0 fl obj ''1st_meal_fat_g''),
         ''1st_meal_protein_g'' \<mapsto> VNum (mac0 fl obj ''1st_meal_protein_g''),
         ''1st_meal_fiber_g'' \<mapsto> VNum (mac0 fl obj ''1st_meal_fiber_g''),
         ''1st_meal_sodium_mg'' \<mapsto> VNum (mac0 fl obj ''1st_meal_sodium_mg''))"
  unfolding shape_meal_def mkeys_def Let_def fst_conv snd_conv
  by (simp add: pull_meal_key_def Let_def pull_nested_str key_prefix_def)

lemma shape_meal_2nd:
  "shape_meal fl (i, ''2nd'') obj =
     obj(''2nd_meal'' \<mapsto> VStr (ensure_meal_label (dget obj ''2nd_meal'') i),
         ''2nd_meal_kcal_target_kcal'' \<mapsto> VNum (mac0 fl obj ''2nd_meal_kcal_target_kcal''),
         ''2nd_meal_carbs_g'' \<mapsto> VNum (mac0 fl obj ''2nd_meal_carbs_g''),
         ''2nd_meal_fat_g'' \<mapsto> VNum (mac0 fl obj ''2nd_meal_fat_g''),
         ''2nd_meal_protein_g'' \<mapsto> VNum (mac0 fl obj ''2nd_meal_protein_g''),
         ''2nd_meal_fiber_g'' \<mapsto> VNum (mac0 fl obj ''2nd_meal_fiber_g''),
         ''2nd_meal_sodium_mg'' \<mapsto> VNum (mac0 fl obj ''2nd_meal_sodium_mg''))"
  unfolding shape_meal_def mkeys_def Let_def fst_conv snd_conv
  by (simp add: pull_meal_key_def Let_def pull_nested_str key_prefix_def)

lemma shape_meal_3rd:
  "shape_meal fl (i, ''3rd'') obj =
     obj(''3rd_meal'' \<mapsto> VStr (ensure_meal_label (dget obj ''3rd_meal'') i),
         ''3rd_meal_kcal_target_kcal'' \<mapsto> VNum (mac0 fl obj ''3rd_meal_kcal_target_kcal''),
         ''3rd_meal_carbs_g'' \<mapsto> VNum (mac0 fl obj ''3rd_meal_carbs_g''),
         ''3rd_meal_fat_g'' \<mapsto> VNum (mac0 fl obj ''3rd_meal_fat_g''),
         ''3rd_meal_protein_g'' \<mapsto> VNum (mac0 fl obj ''3rd_meal_protein_g''),
         ''3rd_meal_fiber_g'' \<mapsto> VNum (mac0 fl obj ''3rd_meal_fiber_g''),
         ''3rd_meal_sodium_mg'' \<mapsto> VNum (mac0 fl obj ''3rd_meal_sodium_mg''))"
  unfolding shape_meal_def mkeys_def Let_def fst_conv snd_conv
  by (simp add: pull_meal_key_def Let_def pull_nested_str key_prefix_def)

lemma shape_meal_4th:
  "shape_meal fl (i, ''4th'') obj =
     obj(''4th_meal'' \<mapsto> VStr (ensure_meal_label (dget obj ''4th_meal'') i),
         ''4th_meal_kcal_target_kcal'' \<mapsto> VNum (mac0 fl obj ''4th_meal_kcal_target_kcal''),
         ''4th_meal_carbs_g'' \<mapsto> VNum (mac0 fl obj ''4th_meal_carbs_g''),
         ''4th_meal_fat_g'' \<mapsto> VNum (mac0 fl obj ''4th_meal_fat_g''),
         ''4th_meal_protein_g'' \<mapsto> VNum (mac0 fl obj ''4th_meal_protein_g''),
         ''4th_meal_fiber_g'' \<mapsto> VNum (mac0 fl obj ''4th_meal_fiber_g''),
         ''4th_meal_sodium_mg'' \<mapsto> VNum (mac0 fl obj ''4th_meal_sodium_mg''))"
  unfolding shape_meal_def mkeys_def Let_def fst_conv snd_conv
  by (simp add: pull_meal_key_def Let_def pull_nested_str key_prefix_def)

lemma stage2:
  "fold (shape_meal fl) (enumerate 0 meals) obj =
     obj(''1st_meal'' \<mapsto> VStr (ensure_meal_label (dget obj ''1st_meal'') 0),
         ''1st_meal_kcal_target_kcal'' \<mapsto> VNum (mac0 fl obj ''1st_meal_kcal_target_kcal''),
         ''1st_meal_carbs_g'' \<mapsto> VNum (mac0 fl obj ''1st_meal_carbs_g''),
         ''1st_meal_fat_g'' \<mapsto> VNum (mac0 fl obj ''1st_meal_fat_g''),
         ''1st_meal_protein_g'' \<mapsto> VNum (mac0 fl obj ''1st_meal_protein_g''),
         ''1st_meal_fiber_g'' \<mapsto> VNum (mac0 fl obj ''1st_meal_fiber_g''),
         ''1st_meal_sodium_mg'' \<mapsto> VNum (mac0 fl obj ''1st_meal_sodium_mg''),
         ''2nd_meal'' \<mapsto> VStr (ensure_meal_label (dget obj ''2nd_meal'') 1),
         ''2nd_meal_kcal_target_kcal'' \<mapsto> VNum (mac0 fl obj ''2nd_meal_kcal_target_kcal''),
         ''2nd_meal_carbs_g'' \<mapsto> VNum (mac0 fl obj ''2nd_meal_carbs_g''),
         ''2nd_meal_fat_g'' \<mapsto> VNum (mac0 fl obj ''2nd_meal_fat_g''),
         ''2nd_meal_protein_g'' \<mapsto> VNum (mac0 fl obj ''2nd_meal_protein_g''),
         ''2nd_meal_fiber_g'' \<mapsto> VNum (mac0 fl obj ''2nd_meal_fiber_g''),
         ''2nd_meal_sodium_mg'' \<mapsto> VNum (mac0 fl obj ''2nd_meal_sodium_mg''),
         ''3rd_meal'' \<mapsto> VStr (ensure_meal_label (dget obj ''3rd_meal'') 2),
         ''3rd_meal_kcal_target_kcal'' \<mapsto> VNum (mac0 fl obj ''3rd_meal_kcal_target_kcal''),
         ''3rd_meal_carbs_g'' \<mapsto> VNum (mac0 fl obj ''3rd_meal_carbs_g''),
         ''3rd_meal_fat_g'' \<mapsto> VNum (mac0 fl obj ''3rd_meal_fat_g''),
         ''3rd_meal_protein_g'' \<mapsto> VNum (mac0 fl obj ''3rd_meal_protein_g''),
         ''3rd_meal_fiber_g'' \<mapsto> VNum (mac0 fl obj ''3rd_meal_fiber_g''),
         ''3rd_meal_sodium_mg'' \<mapsto> VNum (mac0 fl obj ''3rd_meal_sodium_mg''),
         ''4th_meal'' \<mapsto> VStr (ensure_meal_label (dget obj ''4th_meal'') 3),
         ''4th_meal_kcal_target_kcal'' \<mapsto> VNum (mac0 fl obj ''4th_meal_kcal_target_kcal''),
         ''4th_meal_carbs_g'' \<mapsto> VNum (mac0 fl obj ''4th_meal_carbs_g''),
         ''4th_meal_fat_g'' \<mapsto> VNum (mac0 fl obj ''4th_meal_fat_g''),
         ''4th_meal_protein_g'' \<mapsto> VNum (mac0 fl obj ''4th_meal_protein_g''),
         ''4th_meal_fiber_g'' \<mapsto> VNum (mac0 fl obj ''4th_meal_fiber_g''),
         ''4th_meal_sodium_mg'' \<mapsto> VNum (mac0 fl obj ''4th_meal_sodium_mg''))"
  by (simp add: enum_meals shape_meal_1st shape_meal_2nd shape_meal_3rd shape_meal_4th)

lemma fill_total_num:
  "obj T = Some (VNum r) \<Longrightarrow>
   fill_total (T, mk) obj = obj(T \<mapsto> VNum (if r = Fin 0 then meal_sum obj mk else r))"
  by (auto simp add: fill_total_def num_at_def)

lemma meal_sum_upd [simp]:
  "k \<notin> set (map (\<lambda>m. m @ ''_meal_'' @ mm) meals) \<Longrightarrow>
   meal_sum (obj(k \<mapsto> v)) mm = meal_sum obj mm"
  by (auto simp add: meal_sum_def meals_def)

lemma stage3:
  "obj ''Total_kcal_target_kcal'' = Some (VNum r0) \<Longrightarrow> obj ''Total_carbs_g'' = Some (VNum r1) \<Longrightarrow> obj ''Total_fat_g'' = Some (VNum r2) \<Longrightarrow> obj ''Total_protein_g'' = Some (VNum r3) \<Longrightarrow> obj ''Total_fiber_g'' = Some (VNum r4) \<Longrightarrow> obj ''Total_sodium_mg'' = Some (VNum r5) \<Longrightarrow>
   fold fill_total (zip totals mkeys) obj =
     obj(''Total_kcal_target_kcal'' \<mapsto> VNum (if r0 = Fin 0 then meal_sum obj ''kcal_target_kcal'' else r0),
         ''Total_carbs_g'' \<mapsto> VNum (if r1 = Fin 0 then meal_sum obj ''carbs_g'' else r1),
         ''Total_fat_g'' \<mapsto> VNum (if r2 = Fin 0 then meal_sum obj ''fat_g'' else r2),
         ''Total_protein_g'' \<mapsto> VNum (if r3 = Fin 0 then meal_sum obj ''protein_g'' else r3),
         ''Total_fiber_g'' \<mapsto> VNum (if r4 = Fin 0 then meal_sum obj ''fiber_g'' else r4),
         ''Total_sodium_mg'' \<mapsto> VNum (if r5 = Fin 0 then meal_sum obj ''sodium_mg'' else r5))"
  by (simp add: totals_def mkeys_def fill_total_num meals_def)

lemma stage12:
  "fold (shape_meal fl) (enumerate 0 meals) (fold (coerce_total fl) totals obj) = shaped fl obj"
  unfolding stage1 stage2 shaped_def by simp

lemma shaped_total:
  "T \<in> set totals \<Longrightarrow> shaped fl obj T = Some (VNum (tot0 fl obj T))"
  unfolding totals_def set_simps insert_iff empty_iff
  by (elim disjE FalseE; simp only: shaped_def lookup)

lemma shaped_macro:
  "m \<in> set meals \<Longrightarrow> mm \<in> set mkeys \<Longrightarrow>
   shaped fl obj (m @ ''_meal_'' @ mm) = Some (VNum (mac0 fl obj (m @ ''_meal_'' @ mm)))"
  unfolding meals_def mkeys_def set_simps insert_iff empty_iff
  by (elim disjE FalseE; simp only: shaped_def lookup append.simps)

lemma shaped_name:
  "(i, m) \<in> set (enumerate 0 meals) \<Longrightarrow>
   shaped fl obj (m @ ''_meal'') = Some (VStr (ensure_meal_label (dget obj (m @ ''_meal'')) i))"
  unfolding enum_meals set_simps insert_iff empty_iff prod.inject
  by (elim disjE conjE FalseE; simp only: shaped_def lookup append.simps)

lemma shaped_other:
  "k \<notin> set diet_keys \<Longrightarrow> shaped fl obj k = obj k"
  unfolding diet_keys_def totals_def meals_def mkeys_def
  by (simp only: set_simps set_append list.map concat.simps append.simps insert_iff empty_iff
        Un_iff de_Morgan_disj shaped_def lookup)

lemma shaped_sum:
  assumes "mm \<in> set mkeys"
  shows "meal_sum (shaped fl obj) mm = sum0 fl obj mm"
proof -
  have n: "\<And>m. m \<in> set meals \<Longrightarrow>
      num_at (shaped fl obj) (m @ ''_meal_'' @ mm) = mac0 fl obj (m @ ''_meal_'' @ mm)"
    by (simp add: num_at_def shaped_macro assms del: append.simps)
  from n [of "''1st''"] n [of "''2nd''"] n [of "''3rd''"] n [of "''4th''"]
  show ?thesis
    by (simp add: meal_sum_def sum0_def meals_def)
qed

lemma stage123: "fold fill_total (zip totals mkeys) (shaped fl obj) = filled fl obj"
proof -
  have t: "\<And>T. T \<in> set totals \<Longrightarrow> shaped fl obj T = Some (VNum (tot0 fl obj T))"
    by (rule shaped_total)
  have s: "\<And>mm. mm \<in> set mkeys \<Longrightarrow> meal_sum (shaped fl obj) mm = sum0 fl obj mm"
    by (rule shaped_sum)
  have "fold fill_total (zip totals mkeys) (shaped fl obj) =
     (shaped fl obj)(''Total_kcal_target_kcal'' \<mapsto> VNum (if tot0 fl obj ''Total_kcal_target_kcal'' = Fin 0 then meal_sum (shaped fl obj) ''kcal_target_kcal'' else tot0 fl obj ''Total_kcal_target_kcal''),
         ''Total_carbs_g'' \<mapsto> VNum (if tot0 fl obj ''Total_carbs_g'' = Fin 0 then meal_sum (shaped fl obj) ''carbs_g'' else tot0 fl obj ''Total_carbs_g''),
         ''Total_fat_g'' \<mapsto> VNum (if tot0 fl obj ''Total_fat_g'' = Fin 0 then meal_sum (shaped fl obj) ''fat_g'' else tot0 fl obj ''Total_fat_g''),
         ''Total_protein_g'' \<mapsto> VNum (if tot0 fl obj ''Total_protein_g'' = Fin 0 then meal_sum (shaped fl obj) ''protein_g'' else tot0 fl obj ''Total_protein_g''),
         ''Total_fiber_g'' \<mapsto> VNum (if tot0 fl obj ''Total_fiber_g'' = Fin 0 then meal_sum (shaped fl obj) ''fiber_g'' else tot0 fl obj ''Total_fiber_g''),
         ''Total_sodium_mg'' \<mapsto> VNum (if tot0 fl obj ''Total_sodium_mg'' = Fin 0 then meal_sum (shaped fl obj) ''sodium_mg'' else tot0 fl obj ''Total_sodium_mg''))"
    by (rule stage3) (simp_all add: t totals_def)
  then show ?thesis
    by (simp add: s mkeys_def tot1_def filled_def)
qed

lemma filled_total:
  "(T, mm) \<in> set (zip totals mkeys) \<Longrightarrow> filled fl obj T = Some (VNum (tot1 fl obj T mm))"
  unfolding totals_def mkeys_def zip.simps list.case set_simps insert_iff empty_iff prod.inject
  by (elim disjE conjE FalseE; simp only: filled_def lookup)

lemma filled_other:
  "k \<notin> set totals \<Longrightarrow> filled fl obj k = shaped fl obj k"
  unfolding totals_def
  by (simp only: set_simps insert_iff empty_iff de_Morgan_disj filled_def lookup)

lemma Note_not_diet_key: "''Note'' \<notin> set diet_keys"
  by (simp add: diet_keys_def totals_def meals_def mkeys_def)

lemma totals_diet_keys: "T \<in> set totals \<Longrightarrow> T \<in> set diet_keys"
  by (simp add: diet_keys_def)

lemma macro_diet_key:
  "m \<in> set meals \<Longrightarrow> mm \<in> set mkeys \<Longrightarrow> m @ ''_meal_'' @ mm \<in> set diet_keys"
  by (auto simp add: diet_keys_def)

lemma name_diet_key: "m \<in> set meals \<Longrightarrow> m @ ''_meal'' \<in> set diet_keys"
  by (auto simp add: diet_keys_def)

lemma macro_not_total: "m \<in> set meals \<Longrightarrow> m @ ''_meal_'' @ mm \<notin> set totals"
  by (auto simp add: meals_def totals_def)

lemma name_not_total: "m \<in> set meals \<Longrightarrow> m @ ''_meal'' \<notin> set totals"
  by (auto simp add: meals_def totals_def)

lemma filled_Note: "filled fl obj ''Note'' = obj ''Note''"
proof -
  have "''Note'' \<notin> set totals" by (simp add: totals_def)
  then have "filled fl obj ''Note'' = shaped fl obj ''Note''" by (rule filled_other)
  also have "\<dots> = obj ''Note''" by (rule shaped_other [OF Note_not_diet_key])
  finally show ?thesis .
qed

lemma ensure_closed:
  "ensure_diet_shape fl obj = (filled fl obj)(''Note'' \<mapsto> note1 obj)"
proof -
  have d: "dget (filled fl obj) ''Note'' = dget obj ''Note''"
    by (simp add: dget_def filled_Note)
  have e: "ensure_diet_shape fl obj =
      (if \<not> truthy (dget obj ''Note'') then (filled fl obj)(''Note'' \<mapsto> VStr default_note)
       else filled fl obj)"
    unfolding ensure_diet_shape_def stage12 stage123 Let_def d ..
  show ?thesis
  proof (cases "truthy (dget obj ''Note'')")
    case True
    then obtain v where v: "obj ''Note'' = Some v"
      by (cases "obj ''Note''") (auto simp add: dget_def)
    with True show ?thesis
      by (simp add: e note1_def dget_def map_upd_triv filled_Note)
  next
    case False
    then show ?thesis by (simp add: e note1_def)
  qed
qed

lemma ensure_total:
  assumes "(T, mm) \<in> set (zip totals mkeys)"
  shows "ensure_diet_shape fl obj T = Some (VNum (tot1 fl obj T mm))"
proof -
  from assms have "T \<in> set totals" by (rule set_zip_leftD)
  then have "T \<noteq> ''Note''" by (auto simp add: totals_def)
  then show ?thesis
    by (simp add: ensure_closed filled_total [OF assms])
qed

lemma ensure_macro:
  assumes "m \<in> set meals" "mm \<in> set mkeys"
  shows "ensure_diet_shape fl obj (m @ ''_meal_'' @ mm) = Some (VNum (mac0 fl obj (m @ ''_meal_'' @ mm)))"
proof -
  from assms(1) have "m @ ''_meal_'' @ mm \<noteq> ''Note''" by (auto simp add: meals_def)
  then show ?thesis
    by (simp add: ensure_closed filled_other [OF macro_not_total [OF assms(1)]]
        shaped_macro [OF assms] del: append.simps)
qed

lemma ensure_name:
  assumes "(i, m) \<in> set (enumerate 0 meals)"
  shows "ensure_diet_shape fl obj (m @ ''_meal'') =
           Some (VStr (ensure_meal_label (dget obj (m @ ''_meal'')) i))"
proof -
  from assms have m: "m \<in> set meals" by (auto simp add: enum_meals meals_def)
  then have "m @ ''_meal'' \<noteq> ''Note''" by (auto simp add: meals_def)
  then show ?thesis
    by (simp add: ensure_closed filled_other [OF name_not_total [OF m]]
        shaped_name [OF assms] del: append.simps)
qed

lemma ensure_note:
  "ensure_diet_shape fl obj ''Note'' = Some (note1 obj)"
  by (simp add: ensure_closed)

lemma ensure_other:
  assumes "k \<notin> set schema_keys"
  shows "ensure_diet_shape fl obj k = obj k"
proof -
  from assms have n: "k \<noteq> ''Note''" and d: "k \<notin> set diet_keys"
    by (simp_all add: schema_keys_def)
  from d have t: "k \<notin> set totals" by (auto simp add: diet_keys_def)
  from n show ?thesis
    by (simp add: ensure_closed filled_other [OF t] shaped_other [OF d])
qed

lemma ensure_num_total:
  assumes "(T, mm) \<in> set (zip totals mkeys)"
  shows "num_at (ensure_diet_shape fl obj) T = tot1 fl obj T mm"
  by (simp add: num_at_def ensure_total [OF assms])

lemma ensure_meal_sum:
  assumes "mm \<in> set mkeys"
  shows "meal_sum (ensure_diet_shape fl obj) mm = sum0 fl obj mm"
proof -
  have n: "\<And>m. m \<in> set meals \<Longrightarrow>
      num_at (ensure_diet_shape fl obj) (m @ ''_meal_'' @ mm) = mac0 fl obj (m @ ''_meal_'' @ mm)"
    by (simp add: num_at_def ensure_macro assms del: append.simps)
  from n [of "''1st''"] n [of "''2nd''"] n [of "''3rd''"] n [of "''4th''"]
  show ?thesis
    by (simp add: meal_sum_def sum0_def meals_def)
qed

lemma zip_totals_mkeys:
  "zip totals mkeys =
     [(''Total_kcal_target_kcal'', ''kcal_target_kcal''), (''Total_carbs_g'', ''carbs_g''),
      (''Total_fat_g'', ''fat_g''), (''Total_protein_g'', ''protein_g''),
      (''Total_fiber_g'', ''fiber_g''), (''Total_sodium_mg'', ''sodium_mg'')]"
  by (simp add: totals_def mkeys_def)

subsection \<open>The totals fallback\<close>

text \<open>
  C9, as stated, fails: the fallback is not all-or-nothing.  In \<open>diet_partial\<close> the
  calorie total is \<open>2000\<close>, not zero, and still the missing carbohydrate total is replaced
  by the sum \<open>40\<close> of the four per-meal carbohydrate values.
\<close>

theorem C9_fallback_not_all_or_nothing:
  "tot0 no_float diet_partial ''Total_kcal_target_kcal'' = Fin 2000
   \<and> tot0 no_float diet_partial ''Total_carbs_g'' = Fin 0
   \<and> ensure_diet_shape no_float diet_partial ''Total_carbs_g'' = Some (VNum (Fin 40))"
proof -
  have z: "(''Total_carbs_g'', ''carbs_g'') \<in> set (zip totals mkeys)"
    by (simp add: zip_totals_mkeys)
  have a: "tot0 no_float diet_partial ''Total_kcal_target_kcal'' = Fin 2000"
    by (simp add: tot0_def diet_partial_def dget_or_def)
  have b: "tot0 no_float diet_partial ''Total_carbs_g'' = Fin 0"
    by (simp add: tot0_def diet_partial_def dget_or_def)
  have c: "sum0 no_float diet_partial ''carbs_g'' = Fin 40"
    by (simp add: sum0_def mac0_def diet_partial_def)
  from a b c show ?thesis
    by (simp add: ensure_total [OF z] tot1_def)
qed

text \<open>
  C9, amended: the fallback works on each total by itself.  After normalization a total
  equals the sum of its four per-meal values when its own coerced input value
  (\<open>tot0\<close>: missing, null, empty and unparsable count as zero) is zero, and equals that
  coerced value otherwise, whatever the other five totals are.
\<close>

theorem C9_fallback_per_total:
  assumes "(T, mm) \<in> set (zip totals mkeys)"
  shows "num_at (ensure_diet_shape fl obj) T =
           (if tot0 fl obj T = Fin 0 then meal_sum (ensure_diet_shape fl obj) mm
            else tot0 fl obj T)"
proof -
  from assms have "mm \<in> set mkeys" by (rule set_zip_rightD)
  then show ?thesis
    by (simp add: ensure_num_total [OF assms] ensure_meal_sum tot1_def)
qed

theorem C9_fallback_per_total_witness:
  "(''Total_carbs_g'', ''carbs_g'') \<in> set (zip totals mkeys)
   \<and> num_at (ensure_diet_shape no_float diet_partial) ''Total_carbs_g''
       = meal_sum (ensure_diet_shape no_float diet_partial) ''carbs_g''
   \<and> num_at (ensure_diet_shape no_float diet_partial) ''Total_kcal_target_kcal'' = Fin 2000"
proof -
  have z: "(''Total_carbs_g'', ''carbs_g'') \<in> set (zip totals mkeys)"
    and y: "(''Total_kcal_target_kcal'', ''kcal_target_kcal'') \<in> set (zip totals mkeys)"
    by (simp_all add: zip_totals_mkeys)
  have a: "tot0 no_float diet_partial ''Total_kcal_target_kcal'' = Fin 2000"
    by (simp add: tot0_def diet_partial_def dget_or_def)
  have b: "tot0 no_float diet_partial ''Total_carbs_g'' = Fin 0"
    by (simp add: tot0_def diet_partial_def dget_or_def)
  from C9_fallback_per_total [OF z, of no_float diet_partial]
    C9_fallback_per_total [OF y, of no_float diet_partial] z a b
  show ?thesis by simp
qed

section \<open>Properties of the diversification engine\<close>

subsection \<open>Rounding\<close>

lemma round_nearest_bounds: "\<bar>of_int (round_nearest tie x) - x\<bar> \<le> 1/2"
  unfolding round_nearest_def Let_def
  by (auto simp add: abs_if; linarith)

lemma round_nearest_ge: "of_int n \<le> x \<Longrightarrow> n \<le> round_nearest tie x"
  unfolding round_nearest_def Let_def
  by (auto simp add: le_floor_iff; linarith)

lemma round_nearest_le: "x \<le> of_int n \<Longrightarrow> round_nearest tie x \<le> n"
  unfolding round_nearest_def Let_def
  by (auto simp add: floor_le_iff; linarith)


lemma round_dec_bounds: "\<bar>round_dec tie nd x - x\<bar> \<le> 1 / (2 * 10 ^ nd)"
proof -
  define a :: real where "a = of_int (round_nearest tie (x * 10 ^ nd))"
  define p :: real where "p = 10 ^ nd"
  have p: "0 < p" by (simp add: p_def)
  have b: "\<bar>a - x * p\<bar> \<le> 1/2"
    unfolding a_def p_def by (rule round_nearest_bounds)
  have "round_dec tie nd x - x = (a - x * p) / p"
    using p by (simp add: round_dec_def a_def p_def diff_divide_distrib)
  then have "\<bar>round_dec tie nd x - x\<bar> = \<bar>a - x * p\<bar> / p"
    using p by (simp add: abs_divide)
  also have "\<dots> \<le> (1/2) / p"
    by (rule divide_right_mono [OF b]) (use p in simp)
  finally show ?thesis by (simp add: p_def)
qed

lemma round_dec1_bounds: "\<bar>round_dec tie 1 x - x\<bar> \<le> 1/20"
  using round_dec_bounds [of tie 1 x] by simp


lemma round_dec0_ge: "of_int n \<le> x \<Longrightarrow> of_int n \<le> round_dec tie 0 x"
  using round_nearest_ge [of n x tie] by (simp add: round_dec_def)

lemma round_dec0_le: "x \<le> of_int n \<Longrightarrow> round_dec tie 0 x \<le> of_int n"
  using round_nearest_le [of x n tie] by (simp add: round_dec_def)

lemma round_dec1_pos: "1 \<le> x \<Longrightarrow> 0 < round_dec tie 1 x"
  using round_dec1_bounds [of tie x] by linarith

lemma round_dec1_Ints: "round_dec tie 1 x * 10 \<in> \<int>"
  by (simp add: round_dec_def)

lemma round_dec0_Ints: "round_dec tie 0 x * 10 \<in> \<int>"
  by (simp add: round_dec_def)

lemma py_round_Fin [simp]: "py_round tie nd (Fin a) = Fin (round_dec tie nd a)"
  by (simp add: py_round_def)

lemma py_round_NaN [simp]: "py_round tie nd NaN = NaN"
  by (simp add: py_round_def)


subsection \<open>One pass\<close>

lemma ebind_Inr_iff: "ebind m f = Inr y \<longleftrightarrow> (\<exists>x. m = Inr x \<and> f x = Inr y)"
  by (cases m) (simp_all add: ebind_def)

lemma ebind_Inr [simp]: "ebind (Inr x) f = f x"
  by (simp add: ebind_def)

lemma ebind_Inl [simp]: "ebind (Inl e) f = Inl e"
  by (simp add: ebind_def)

lemma names_fold:
  "fold (set_meal_name chosen) (enumerate 0 meals) obj =
     obj(''1st_meal'' \<mapsto> VStr (chosen ! 0), ''2nd_meal'' \<mapsto> VStr (chosen ! 1),
         ''3rd_meal'' \<mapsto> VStr (chosen ! 2), ''4th_meal'' \<mapsto> VStr (chosen ! 3))"
  by (simp add: enum_meals set_meal_name_def)

lemma split_fold:
  "fold (set_meal_split sk sc sf sp sfi sna) (enumerate 0 meals) obj =
     obj(''1st_meal_kcal_target_kcal'' \<mapsto> VNum (sk ! 0),
         ''1st_meal_carbs_g'' \<mapsto> VNum (sc ! 0),
         ''1st_meal_fat_g'' \<mapsto> VNum (sf ! 0),
         ''1st_meal_protein_g'' \<mapsto> VNum (sp ! 0),
         ''1st_meal_fiber_g'' \<mapsto> VNum (sfi ! 0),
         ''1st_meal_sodium_mg'' \<mapsto> VNum (sna ! 0),
         ''2nd_meal_kcal_target_kcal'' \<mapsto> VNum (sk ! 1),
         ''2nd_meal_carbs_g'' \<mapsto> VNum (sc ! 1),
         ''2nd_meal_fat_g'' \<mapsto> VNum (sf ! 1),
         ''2nd_meal_protein_g'' \<mapsto> VNum (sp ! 1),
         ''2nd_meal_fiber_g'' \<mapsto> VNum (sfi ! 1),
         ''2nd_meal_sodium_mg'' \<mapsto> VNum (sna ! 1),
         ''3rd_meal_kcal_target_kcal'' \<mapsto> VNum (sk ! 2),
         ''3rd_meal_carbs_g'' \<mapsto> VNum (sc ! 2),
         ''3rd_meal_fat_g'' \<mapsto> VNum (sf ! 2),
         ''3rd_meal_protein_g'' \<mapsto> VNum (sp ! 2),
         ''3rd_meal_fiber_g'' \<mapsto> VNum (sfi ! 2),
         ''3rd_meal_sodium_mg'' \<mapsto> VNum (sna ! 2),
         ''4th_meal_kcal_target_kcal'' \<mapsto> VNum (sk ! 3),
         ''4th_meal_carbs_g'' \<mapsto> VNum (sc ! 3),
         ''4th_meal_fat_g'' \<mapsto> VNum (sf ! 3),
         ''4th_meal_protein_g'' \<mapsto> VNum (sp ! 3),
         ''4th_meal_fiber_g'' \<mapsto> VNum (sfi ! 3),
         ''4th_meal_sodium_mg'' \<mapsto> VNum (sna ! 3))"
  by (simp add: enum_meals set_meal_split_def Let_def)

lemma num_at_names:
  "T \<in> set totals \<Longrightarrow>
   num_at (fold (set_meal_name chosen) (enumerate 0 meals) obj) T = num_at obj T"
  unfolding names_fold totals_def set_simps insert_iff empty_iff num_at_def
  by (elim disjE FalseE; simp only: lookup)

lemma diversify_pass_Inr:
  assumes "diversify_pass R tie fl obj pid week_id persona nonce = Inr r"
  obtains obj1 g1 offset g2 chosen sk g3 sc g4 sf g5 sp g6 sfi g7 sna g8 where
    "re_totals_with_jitter R tie fl obj persona (rnd_new R (rnd_sha R (diet_seed pid week_id nonce)))
       = Inr (obj1, g1)"
    "randrange R 0 (int (length SAUDI_MEAL_NAMES) - 4) g1 = Inr (offset, g2)"
    "chosen_names offset = Inr chosen"
    "split4 R tie (num_at obj1 ''Total_kcal_target_kcal'') g2 = Inr (sk, g3)"
    "split4 R tie (num_at obj1 ''Total_carbs_g'') g3 = Inr (sc, g4)"
    "split4 R tie (num_at obj1 ''Total_fat_g'') g4 = Inr (sf, g5)"
    "split4 R tie (num_at obj1 ''Total_protein_g'') g5 = Inr (sp, g6)"
    "split4 R tie (num_at obj1 ''Total_fiber_g'') g6 = Inr (sfi, g7)"
    "split4 R tie (num_at obj1 ''Total_sodium_mg'') g7 = Inr (sna, g8)"
    "r = fold (set_meal_split sk sc sf sp sfi sna) (enumerate 0 meals)
           (fold (set_meal_name chosen) (enumerate 0 meals) obj1)"
  using assms
  by (auto simp add: diversify_pass_def Let_def ebind_Inr_iff totals_def num_at_names
        simp del: ebind_Inr ebind_Inl)

subsection \<open>Partial correctness of the recursion\<close>

lemma accepted_mono:
  "accepted R tie fl rp pid week_id persona last_week (nonce + 1) y \<Longrightarrow>
   accepted R tie fl rp pid week_id persona last_week nonce y"
proof (cases y)
  case (Inl e)
  then show ?thesis by (simp add: accepted_def)
next
  case (Inr r)
  assume "accepted R tie fl rp pid week_id persona last_week (nonce + 1) y"
  with Inr obtain obj' n where n: "nonce + 1 \<le> n"
      and p: "diversify_pass R tie fl obj' pid week_id persona n = Inr r"
      and rest: "all_meals_identical fl rp r = Inr False" "\<not> similar_overview fl rp r last_week"
    by (auto simp add: accepted_def)
  from n have "nonce \<le> n" by simp
  with p rest Inr show ?thesis
    unfolding accepted_def by auto
qed

lemma diversify_meals_accepts:
  assumes "diversify_meals R tie fl rp obj pid week_id persona last_week nonce = Some y"
  shows "accepted R tie fl rp pid week_id persona last_week nonce y"
proof (rule diversify_meals.raw_induct
    [where P = "\<lambda>R tie fl rp obj pid week_id persona last_week nonce y.
                  accepted R tie fl rp pid week_id persona last_week nonce y", OF _ assms])
  fix dm :: "'g pyrandom \<Rightarrow> (real \<Rightarrow> bool) \<Rightarrow> (string \<Rightarrow> pyfloat option) \<Rightarrow> (pyval \<Rightarrow> string)
     \<Rightarrow> pydict \<Rightarrow> string \<Rightarrow> string \<Rightarrow> pydict \<Rightarrow> pydict option \<Rightarrow> int
     \<Rightarrow> (py_error + pydict) option"
    and R tie fl rp obj pid week_id persona last_week nonce y
  assume IH: "\<And>R tie fl rp obj pid week_id persona last_week nonce y.
           dm R tie fl rp obj pid week_id persona last_week nonce = Some y \<Longrightarrow>
           accepted R tie fl rp pid week_id persona last_week nonce y"
    and body: "(case diversify_pass R tie fl obj pid week_id persona nonce of
        Inl e \<Rightarrow> Some (Inl e)
      | Inr obj' \<Rightarrow>
          (case all_meals_identical fl rp obj' of
             Inl e \<Rightarrow> Some (Inl e)
           | Inr ident \<Rightarrow>
               if ident \<or> similar_overview fl rp obj' last_week
               then dm R tie fl rp obj' pid week_id persona last_week (nonce + 1)
               else Some (Inr obj'))) = Some y"
  show "accepted R tie fl rp pid week_id persona last_week nonce y"
  proof (cases "diversify_pass R tie fl obj pid week_id persona nonce")
    case (Inl e)
    with body have "y = Inl e" by simp
    then show ?thesis by (simp add: accepted_def)
  next
    case (Inr c)
    note pass = this
    show ?thesis
    proof (cases "all_meals_identical fl rp c")
      case (Inl e)
      with body pass have "y = Inl e" by simp
      then show ?thesis by (simp add: accepted_def)
    next
      case (Inr ident)
      note id = this
      show ?thesis
      proof (cases "ident \<or> similar_overview fl rp c last_week")
        case True
        with body pass id have "dm R tie fl rp c pid week_id persona last_week (nonce + 1) = Some y"
          by simp
        then have "accepted R tie fl rp pid week_id persona last_week (nonce + 1) y"
          by (rule IH)
        then show ?thesis by (rule accepted_mono)
      next
        case False
        with body pass id have "y = Inr c" by simp
        moreover from False id have "all_meals_identical fl rp c = Inr False" by simp
        ultimately show ?thesis using False pass by (auto simp add: accepted_def)
      qed
    qed
  qed
qed

subsection \<open>The totals of a pass\<close>

lemma uniform_bounds:
  assumes "rng_ok R" "a \<le> b"
  shows "a \<le> fst (uniform R a b g)" "fst (uniform R a b g) \<le> b"
proof -
  obtain u g' where u: "rnd_random R g = (u, g')" by (cases "rnd_random R g")
  with assms(1) have "0 \<le> u" "u < 1"
    unfolding rng_ok_def by (metis fst_conv)+
  with assms(2) have "0 \<le> (b - a) * u" "(b - a) * u \<le> (b - a) * 1"
    by (simp, intro mult_left_mono, simp_all)
  then show "a \<le> fst (uniform R a b g)" "fst (uniform R a b g) \<le> b"
    by (simp_all add: uniform_def u)
qed

text \<open>The clamps: whatever the weight is, the calories and the sodium are finite.\<close>

lemma py_max_min_Fin:
  assumes "lo \<le> hi"
  obtains a where "py_max (Fin lo) (py_min (Fin hi) x) = Fin a" "lo \<le> a" "a \<le> hi"
proof -
  have "\<exists>a. py_max (Fin lo) (py_min (Fin hi) x) = Fin a \<and> lo \<le> a \<and> a \<le> hi"
  proof (cases x)
    case (Fin b)
    with assms show ?thesis by (simp add: py_max_def py_min_def)
  next
    case PInf
    with assms show ?thesis by (simp add: py_max_def py_min_def)
  next
    case NInf
    with assms show ?thesis by (simp add: py_max_def py_min_def)
  next
    case NaN
    with assms show ?thesis by (simp add: py_max_def py_min_def)
  qed
  then show ?thesis using that by blast
qed

lemma py_min_max_Fin:
  assumes "lo \<le> hi" "x \<noteq> NaN"
  obtains a where "py_min (py_max x (Fin lo)) (Fin hi) = Fin a" "lo \<le> a" "a \<le> hi"
proof -
  have "\<exists>a. py_min (py_max x (Fin lo)) (Fin hi) = Fin a \<and> lo \<le> a \<and> a \<le> hi"
  proof (cases x)
    case (Fin b)
    with assms show ?thesis by (simp add: py_max_def py_min_def)
  next
    case PInf
    with assms show ?thesis by (simp add: py_max_def py_min_def)
  next
    case NInf
    with assms show ?thesis by (simp add: py_max_def py_min_def)
  next
    case NaN
    with assms show ?thesis by simp
  qed
  then show ?thesis using that by blast
qed

lemma py_min_max_NaN [simp]: "py_min (py_max NaN (Fin lo)) (Fin hi) = NaN"
  by (simp add: py_max_def py_min_def)

lemma py_max_Fin_or_NaN:
  assumes "y = NaN \<or> (\<exists>b. y = Fin b)"
  obtains a where "py_max (Fin lo) y = Fin a" "lo \<le> a"
proof -
  from assms have "\<exists>a. py_max (Fin lo) y = Fin a \<and> lo \<le> a"
    by (auto simp add: py_max_def)
  then show ?thesis using that by blast
qed

lemma fmul_Fin_NaN_iff: "c \<noteq> 0 \<Longrightarrow> fmul (Fin c) w = NaN \<longleftrightarrow> w = NaN"
  by (cases w) simp_all

lemma goal_kcal_Fin:
  obtains a where "goal_kcal w goal = Fin a" "1600 \<le> a" "a \<le> 3600"
proof -
  define base2 where "base2 =
    (if contains goal ''muscle''
     then fadd (if contains goal ''fat'' then fsub (fmul (Fin 28) w) (Fin 250)
                else fmul (Fin 28) w) (Fin 150)
     else (if contains goal ''fat'' then fsub (fmul (Fin 28) w) (Fin 250)
           else fmul (Fin 28) w))"
  have g: "goal_kcal w goal = py_max (Fin 1600) (py_min (Fin 3600) base2)"
    by (simp add: goal_kcal_def Let_def base2_def)
  have "(1600::real) \<le> 3600" by simp
  then obtain a where "py_max (Fin 1600) (py_min (Fin 3600) base2) = Fin a" "1600 \<le> a"
    "a \<le> 3600"
    by (rule py_max_min_Fin)
  with g show ?thesis using that by simp
qed

lemma jitter_Fin:
  "jitter R tie (Fin v) pct g =
     (Fin (round_dec tie 1 (v * fst (uniform R (1 - pct) (1 + pct) g))),
      snd (uniform R (1 - pct) (1 + pct) g))"
  by (simp add: jitter_def Let_def case_prod_beta)

lemma jitter_NaN:
  "jitter R tie NaN pct g = (NaN, snd (uniform R (1 - pct) (1 + pct) g))"
  by (simp add: jitter_def Let_def case_prod_beta)

lemma jitter_ge:
  assumes "rng_ok R" "0 \<le> v" "0 \<le> pct"
  shows "v * (1 - pct) - 1/20 \<le> round_dec tie 1 (v * fst (uniform R (1 - pct) (1 + pct) g))"
proof -
  define u where "u = fst (uniform R (1 - pct) (1 + pct) g)"
  from assms(3) have "1 - pct \<le> 1 + pct" by simp
  from uniform_bounds(1) [OF assms(1) this, of g] have "1 - pct \<le> u" by (simp add: u_def)
  then have "v * (1 - pct) \<le> v * u" using assms(2) by (rule mult_left_mono)
  moreover have "\<bar>round_dec tie 1 (v * u) - v * u\<bar> \<le> 1/20" by (rule round_dec1_bounds)
  ultimately show ?thesis unfolding u_def by linarith
qed

lemma re_totals_Inr:
  assumes "re_totals_with_jitter R tie fl obj persona g = Inr (obj1, g1)"
  obtains tk tc tf tp tfi tna where
    "obj1 = obj(''Total_kcal_target_kcal'' \<mapsto> VNum (Fin tk), ''Total_carbs_g'' \<mapsto> VNum (Fin tc),
                ''Total_fat_g'' \<mapsto> VNum (Fin tf), ''Total_protein_g'' \<mapsto> VNum tp,
                ''Total_fiber_g'' \<mapsto> VNum (Fin tfi), ''Total_sodium_mg'' \<mapsto> VNum (Fin tna))"
    "1500 \<le> tna"
    "tk * 10 \<in> \<int> \<and> tc * 10 \<in> \<int> \<and> tf * 10 \<in> \<int> \<and> tfi * 10 \<in> \<int> \<and> tna * 10 \<in> \<int>"
    "rng_ok R \<longrightarrow> 0 < tk \<and> 0 < tc \<and> 0 < tf \<and> 0 < tfi"
    "persona_weight fl persona = NaN \<longrightarrow> tp = NaN"
    "persona_weight fl persona \<noteq> NaN \<longrightarrow>
       (\<exists>p. tp = Fin p \<and> p * 10 \<in> \<int> \<and> (rng_ok R \<longrightarrow> 0 < p))"
proof -
  define w where "w = persona_weight fl persona"
  from assms obtain goal where goal: "get_lower persona ''Primary_goal'' = Inr goal"
    by (auto simp add: re_totals_with_jitter_def Let_def ebind_Inr_iff simp del: ebind_Inr ebind_Inl)
  define pbase where "pbase =
    (if contains goal ''muscle'' then py_min (py_max (fmul (Fin (19/10)) w) (Fin 110)) (Fin 190)
     else if contains goal ''fat'' then py_min (py_max (fmul (Fin (18/10)) w) (Fin 100)) (Fin 180)
     else py_min (py_max (fmul (Fin (17/10)) w) (Fin 95)) (Fin 175))"
  define fr :: real where "fr =
    (if contains goal ''muscle'' then 27/100 else if contains goal ''fat'' then 30/100 else 28/100)"
  obtain gk where gk: "goal_kcal w goal = Fin gk" "1600 \<le> gk"
    by (rule goal_kcal_Fin)
  define uk where "uk = fst (uniform R (1 - 6/100) (1 + 6/100) g)"
  define ga where "ga = snd (uniform R (1 - 6/100) (1 + 6/100) g)"
  define kcal where "kcal = round_dec tie 1 (gk * uk)"
  have jk: "jitter R tie (goal_kcal w goal) (6/100) g = (Fin kcal, ga)"
    unfolding gk(1) jitter_Fin kcal_def uk_def ga_def ..
  obtain p gb where p: "jitter R tie pbase (6/100) ga = (p, gb)"
    by (cases "jitter R tie pbase (6/100) ga")
  define uf where "uf = fst (uniform R (1 - 8/100) (1 + 8/100) gb)"
  define gc where "gc = snd (uniform R (1 - 8/100) (1 + 8/100) gb)"
  define f where "f = round_dec tie 1 (kcal * fr / 9 * uf)"
  have jf: "jitter R tie (fdivc (fmul (Fin kcal) (Fin fr)) 9) (8/100) gb = (Fin f, gc)"
    by (simp add: jitter_Fin f_def uf_def gc_def)
  obtain fu gd where fu: "uniform R 24 36 gc = (fu, gd)"
    by (cases "uniform R 24 36 gc")
  obtain su ge where su: "uniform R (- 350) 350 gd = (su, ge)"
    by (cases "uniform R (- 350) 350 gd")
  define cc where "cc = py_max (Fin 90)
      (fdivc (fsub (Fin kcal) (fadd (fmul p (Fin 4)) (fmul (Fin f) (Fin 9)))) 4)"
  define so where "so = py_max (Fin 1500) (py_min (Fin 3200)
      (fadd (fadd (Fin 2000) (fmul (fsub w (Fin 70)) (Fin 8))) (Fin su)))"
  have obj1: "obj1 = obj(''Total_kcal_target_kcal'' \<mapsto> VNum (py_round tie 1 (Fin kcal)),
                ''Total_carbs_g'' \<mapsto> VNum (py_round tie 1 cc),
                ''Total_fat_g'' \<mapsto> VNum (py_round tie 1 (Fin f)),
                ''Total_protein_g'' \<mapsto> VNum (py_round tie 1 p),
                ''Total_fiber_g'' \<mapsto> VNum (py_round tie 1 (Fin fu)),
                ''Total_sodium_mg'' \<mapsto> VNum (py_round tie 0 so))"
    using assms jk p jf fu su
    unfolding re_totals_with_jitter_def w_def [symmetric] goal ebind_Inr
    by (simp add: Let_def pbase_def fr_def cc_def so_def split: if_splits)
  have "(1500::real) \<le> 3200" by simp
  then obtain na where na: "so = Fin na" "1500 \<le> na"
    unfolding so_def by (rule py_max_min_Fin)
  have pcases: "(w = NaN \<and> pbase = NaN) \<or> (w \<noteq> NaN \<and> (\<exists>b. pbase = Fin b \<and> 95 \<le> b))"
  proof (cases "w = NaN")
    case True
    then show ?thesis by (simp add: pbase_def)
  next
    case False
    then have n: "fmul (Fin c) w \<noteq> NaN" if "c \<noteq> 0" for c
      using that by (simp add: fmul_Fin_NaN_iff)
    have "\<exists>b. pbase = Fin b \<and> 95 \<le> b"
    proof (cases "contains goal ''muscle''")
      case True
      have "(110::real) \<le> 190" by simp
      from this n [of "19/10"] obtain a where
        "py_min (py_max (fmul (Fin (19/10)) w) (Fin 110)) (Fin 190) = Fin a" "110 \<le> a"
        by (rule py_min_max_Fin) simp_all
      with True show ?thesis by (auto simp add: pbase_def)
    next
      case nm: False
      show ?thesis
      proof (cases "contains goal ''fat''")
        case True
        have "(100::real) \<le> 180" by simp
        from this n [of "18/10"] obtain a where
          "py_min (py_max (fmul (Fin (18/10)) w) (Fin 100)) (Fin 180) = Fin a" "100 \<le> a"
          by (rule py_min_max_Fin) simp_all
        with True nm show ?thesis by (auto simp add: pbase_def)
      next
        case False
        have "(95::real) \<le> 175" by simp
        from this n [of "17/10"] obtain a where
          "py_min (py_max (fmul (Fin (17/10)) w) (Fin 95)) (Fin 175) = Fin a" "95 \<le> a"
          by (rule py_min_max_Fin) simp_all
        with False nm show ?thesis by (auto simp add: pbase_def)
      qed
    qed
    with False show ?thesis by simp
  qed
  have pN: "w = NaN \<longrightarrow> py_round tie 1 p = NaN"
    using pcases p by (auto simp add: jitter_NaN)
  have pF: "w \<noteq> NaN \<longrightarrow>
      (\<exists>q. py_round tie 1 p = Fin q \<and> q * 10 \<in> \<int> \<and> (rng_ok R \<longrightarrow> 0 < q))"
  proof
    assume "w \<noteq> NaN"
    with pcases obtain b where b: "pbase = Fin b" "95 \<le> b" by auto
    define up where "up = fst (uniform R (1 - 6/100) (1 + 6/100) ga)"
    define p' where "p' = round_dec tie 1 (b * up)"
    from p have pp: "p = Fin p'"
      by (simp add: b(1) jitter_Fin p'_def up_def)
    have "0 < round_dec tie 1 p'" if ok: "rng_ok R"
    proof -
      from b(2) have "0 \<le> b" by simp
      from jitter_ge [OF ok this, of "6/100" tie ga] b(2)
      have "1 \<le> p'" by (simp add: p'_def up_def)
      then show ?thesis by (rule round_dec1_pos)
    qed
    moreover have "round_dec tie 1 p' * 10 \<in> \<int>" by (rule round_dec1_Ints)
    moreover have "py_round tie 1 p = Fin (round_dec tie 1 p')"
      unfolding pp by (rule py_round_Fin)
    ultimately show "\<exists>q. py_round tie 1 p = Fin q \<and> q * 10 \<in> \<int> \<and> (rng_ok R \<longrightarrow> 0 < q)"
      by blast
  qed
  have pnf: "p = NaN \<or> (\<exists>b. p = Fin b)"
    using pcases p by (auto simp add: jitter_NaN jitter_Fin)
  have "fdivc (fsub (Fin kcal) (fadd (fmul p (Fin 4)) (fmul (Fin f) (Fin 9)))) 4 = NaN
      \<or> (\<exists>b. fdivc (fsub (Fin kcal) (fadd (fmul p (Fin 4)) (fmul (Fin f) (Fin 9)))) 4 = Fin b)"
  proof (cases p)
    case (Fin b)
    then have "fdivc (fsub (Fin kcal) (fadd (fmul p (Fin 4)) (fmul (Fin f) (Fin 9)))) 4
        = Fin ((kcal - (b * 4 + f * 9)) / 4)"
      by (simp add: fsub_def)
    then show ?thesis by blast
  next
    case NaN
    then show ?thesis by (simp add: fsub_def)
  next
    case PInf
    with pnf show ?thesis by simp
  next
    case NInf
    with pnf show ?thesis by simp
  qed
  then obtain c where c: "cc = Fin c" "90 \<le> c"
    unfolding cc_def by (rule py_max_Fin_or_NaN)
  have pos: "0 < round_dec tie 1 kcal \<and> 0 < round_dec tie 1 c \<and> 0 < round_dec tie 1 f
      \<and> 0 < round_dec tie 1 fu" if ok: "rng_ok R"
  proof -
    from gk(2) have "0 \<le> gk" by simp
    from jitter_ge [OF ok this, of "6/100" tie g] gk(2)
    have k1: "1503 \<le> kcal" by (simp add: kcal_def uk_def)
    have "27/100 \<le> fr" by (auto simp add: fr_def)
    with k1 have "1503 * (27/100) \<le> kcal * fr"
      by (intro mult_mono) simp_all
    then have f0: "40 \<le> kcal * fr / 9" by simp
    then have "0 \<le> kcal * fr / 9" by simp
    from jitter_ge [OF ok this, of "8/100" tie gb] f0
    have f1: "1 \<le> f" by (simp add: f_def uf_def)
    from c(2) have c1: "1 \<le> c" by simp
    from uniform_bounds(1) [OF ok, of 24 36 gc] fu have fu1: "1 \<le> fu" by simp
    from k1 have k2: "1 \<le> kcal" by simp
    show ?thesis
      by (intro conjI round_dec1_pos k2 c1 f1 fu1)
  qed
  show ?thesis
  proof (rule that)
    show "obj1 = obj(''Total_kcal_target_kcal'' \<mapsto> VNum (Fin (round_dec tie 1 kcal)),
                ''Total_carbs_g'' \<mapsto> VNum (Fin (round_dec tie 1 c)),
                ''Total_fat_g'' \<mapsto> VNum (Fin (round_dec tie 1 f)),
                ''Total_protein_g'' \<mapsto> VNum (py_round tie 1 p),
                ''Total_fiber_g'' \<mapsto> VNum (Fin (round_dec tie 1 fu)),
                ''Total_sodium_mg'' \<mapsto> VNum (Fin (round_dec tie 0 na)))"
      unfolding obj1 c(1) na(1) py_round_Fin ..
    show "1500 \<le> round_dec tie 0 na"
      using round_dec0_ge [of 1500 na tie] na(2) by simp
    show "round_dec tie 1 kcal * 10 \<in> \<int> \<and> round_dec tie 1 c * 10 \<in> \<int>
        \<and> round_dec tie 1 f * 10 \<in> \<int> \<and> round_dec tie 1 fu * 10 \<in> \<int>
        \<and> round_dec tie 0 na * 10 \<in> \<int>"
      by (intro conjI round_dec1_Ints round_dec0_Ints)
    show "rng_ok R \<longrightarrow> 0 < round_dec tie 1 kcal \<and> 0 < round_dec tie 1 c
        \<and> 0 < round_dec tie 1 f \<and> 0 < round_dec tie 1 fu"
      using pos by blast
    show "persona_weight fl persona = NaN \<longrightarrow> py_round tie 1 p = NaN"
      using pN by (simp add: w_def)
    show "persona_weight fl persona \<noteq> NaN \<longrightarrow>
       (\<exists>q. py_round tie 1 p = Fin q \<and> q * 10 \<in> \<int> \<and> (rng_ok R \<longrightarrow> 0 < q))"
      using pF by (simp add: w_def)
  qed
qed

lemma re_totals_state:
  assumes "re_totals_with_jitter R tie fl obj persona g = Inr (obj1, g1)"
  shows "g1 = after_totals R g"
proof -
  from assms obtain goal where goal: "get_lower persona ''Primary_goal'' = Inr goal"
    by (auto simp add: re_totals_with_jitter_def Let_def ebind_Inr_iff simp del: ebind_Inr ebind_Inl)
  have j: "\<And>v pct g. snd (jitter R tie v pct g) = snd (rnd_random R g)"
    by (simp add: jitter_def uniform_def Let_def case_prod_beta)
  have u: "\<And>a b g. snd (uniform R a b g) = snd (rnd_random R g)"
    by (simp add: uniform_def case_prod_beta)
  from assms have "g1 = state_of (re_totals_with_jitter R tie fl obj persona g) g"
    by (simp add: state_of_def)
  also have "\<dots> = after_totals R g"
    unfolding re_totals_with_jitter_def goal ebind_Inr Let_def case_prod_beta state_of_def
      sum.case snd_conv after_totals_def
    by (simp only: j u if_distrib [of snd] if_cancel)
  finally show ?thesis .
qed

subsection \<open>The names and the shares of a pass\<close>

lemma length_SAUDI_MEAL_NAMES: "length SAUDI_MEAL_NAMES = 13"
  by (simp add: SAUDI_MEAL_NAMES_def)

lemma chosen_names_Inr:
  assumes "chosen_names offset = Inr chosen" "0 \<le> offset"
  shows "offset \<le> 9"
    and "chosen = map (\<lambda>i. SAUDI_MEAL_NAMES ! (nat offset + i)) [0, 1, 2, 3]"
    and "distinct chosen" and "[] \<notin> set chosen" and "length chosen = 4"
proof -
  from assms(1) obtain n3 where "py_index SAUDI_MEAL_NAMES (offset + 3) = Inr n3"
    by (auto simp add: chosen_names_def ebind_Inr_iff simp del: ebind_Inr ebind_Inl)
  with assms(2) have "offset + 3 < 13"
    by (auto simp add: py_index_def Let_def length_SAUDI_MEAL_NAMES split: if_splits)
  with assms(2) show le: "offset \<le> 9" by simp
  from le assms(2) consider "offset = 0" | "offset = 1" | "offset = 2" | "offset = 3"
    | "offset = 4" | "offset = 5" | "offset = 6" | "offset = 7" | "offset = 8" | "offset = 9"
    by atomize_elim presburger
  then have "chosen = map (\<lambda>i. SAUDI_MEAL_NAMES ! (nat offset + i)) [0, 1, 2, 3]
      \<and> distinct chosen \<and> [] \<notin> set chosen \<and> length chosen = 4"
    using assms(1)
    by cases (auto simp add: chosen_names_def py_index_def Let_def SAUDI_MEAL_NAMES_def)
  then show "chosen = map (\<lambda>i. SAUDI_MEAL_NAMES ! (nat offset + i)) [0, 1, 2, 3]"
    and "distinct chosen" and "[] \<notin> set chosen" and "length chosen = 4"
    by blast+
qed





subsection \<open>The dictionary of a pass\<close>

lemma diversify_pass_form:
  assumes "diversify_pass R tie fl obj pid week_id persona nonce = Inr r"
  obtains tk tc tf tp tfi tna offset chosen sk sc sf sp sfi sna ga gb gc gd ge gf gg where
    "r = pass_dict obj (Fin tk) (Fin tc) (Fin tf) tp (Fin tfi) (Fin tna) chosen sk sc sf sp sfi sna"
    "chosen_names offset = Inr chosen" "0 \<le> offset" "rng_ok R \<longrightarrow> offset \<le> 8"
    "offset = pass_offset R pid week_id nonce"
    "split4 R tie (Fin tk) ga = Inr (sk, gb)" "split4 R tie (Fin tc) gb = Inr (sc, gc)"
    "split4 R tie (Fin tf) gc = Inr (sf, gd)" "split4 R tie tp gd = Inr (sp, ge)"
    "split4 R tie (Fin tfi) ge = Inr (sfi, gf)" "split4 R tie (Fin tna) gf = Inr (sna, gg)"
    "1500 \<le> tna"
    "tk * 10 \<in> \<int> \<and> tc * 10 \<in> \<int> \<and> tf * 10 \<in> \<int> \<and> tfi * 10 \<in> \<int> \<and> tna * 10 \<in> \<int>"
    "rng_ok R \<longrightarrow> 0 < tk \<and> 0 < tc \<and> 0 < tf \<and> 0 < tfi"
    "persona_weight fl persona = NaN \<longrightarrow> tp = NaN"
    "persona_weight fl persona \<noteq> NaN \<longrightarrow>
       (\<exists>p. tp = Fin p \<and> p * 10 \<in> \<int> \<and> (rng_ok R \<longrightarrow> 0 < p))"
proof -
  from assms obtain obj1 g1 offset g2 chosen sk g3 sc g4 sf g5 sp g6 sfi g7 sna g8 where
    re: "re_totals_with_jitter R tie fl obj persona (rnd_new R (rnd_sha R (diet_seed pid week_id nonce)))
       = Inr (obj1, g1)"
    and rr: "randrange R 0 (int (length SAUDI_MEAL_NAMES) - 4) g1 = Inr (offset, g2)"
    and ch: "chosen_names offset = Inr chosen"
    and sp: "split4 R tie (num_at obj1 ''Total_kcal_target_kcal'') g2 = Inr (sk, g3)"
      "split4 R tie (num_at obj1 ''Total_carbs_g'') g3 = Inr (sc, g4)"
      "split4 R tie (num_at obj1 ''Total_fat_g'') g4 = Inr (sf, g5)"
      "split4 R tie (num_at obj1 ''Total_protein_g'') g5 = Inr (sp, g6)"
      "split4 R tie (num_at obj1 ''Total_fiber_g'') g6 = Inr (sfi, g7)"
      "split4 R tie (num_at obj1 ''Total_sodium_mg'') g7 = Inr (sna, g8)"
    and r: "r = fold (set_meal_split sk sc sf sp sfi sna) (enumerate 0 meals)
           (fold (set_meal_name chosen) (enumerate 0 meals) obj1)"
    by (rule diversify_pass_Inr)
  from re obtain tk tc tf tp tfi tna where
    obj1: "obj1 = obj(''Total_kcal_target_kcal'' \<mapsto> VNum (Fin tk),
              ''Total_carbs_g'' \<mapsto> VNum (Fin tc),
              ''Total_fat_g'' \<mapsto> VNum (Fin tf),
              ''Total_protein_g'' \<mapsto> VNum tp,
              ''Total_fiber_g'' \<mapsto> VNum (Fin tfi),
              ''Total_sodium_mg'' \<mapsto> VNum (Fin tna))"
    and na: "1500 \<le> tna"
    and ints: "tk * 10 \<in> \<int> \<and> tc * 10 \<in> \<int> \<and> tf * 10 \<in> \<int> \<and> tfi * 10 \<in> \<int> \<and> tna * 10 \<in> \<int>"
    and pos: "rng_ok R \<longrightarrow> 0 < tk \<and> 0 < tc \<and> 0 < tf \<and> 0 < tfi"
    and pn: "persona_weight fl persona = NaN \<longrightarrow> tp = NaN"
    and pf: "persona_weight fl persona \<noteq> NaN \<longrightarrow>
       (\<exists>p. tp = Fin p \<and> p * 10 \<in> \<int> \<and> (rng_ok R \<longrightarrow> 0 < p))"
    by (rule re_totals_Inr)
  have n: "num_at obj1 ''Total_kcal_target_kcal'' = Fin tk" "num_at obj1 ''Total_carbs_g'' = Fin tc"
    "num_at obj1 ''Total_fat_g'' = Fin tf" "num_at obj1 ''Total_protein_g'' = tp"
    "num_at obj1 ''Total_fiber_g'' = Fin tfi" "num_at obj1 ''Total_sodium_mg'' = Fin tna"
    unfolding obj1 by simp_all
  from rr have off: "offset = int (fst (rnd_below R 9 g1))"
    by (auto simp add: randrange_def length_SAUDI_MEAL_NAMES Let_def split: prod.splits)
  from re_totals_state [OF re] off have po: "offset = pass_offset R pid week_id nonce"
    by (simp add: pass_offset_def)
  from off have o0: "0 \<le> offset" by simp
  have o8: "rng_ok R \<longrightarrow> offset \<le> 8"
  proof
    assume "rng_ok R"
    then have "fst (rnd_below R 9 g1) < 9" unfolding rng_ok_def by simp
    with off show "offset \<le> 8" by simp
  qed
  from r have "r = pass_dict obj (Fin tk) (Fin tc) (Fin tf) tp (Fin tfi) (Fin tna) chosen
      sk sc sf sp sfi sna"
    by (simp only: pass_dict_def obj1)
  then show ?thesis
    using ch o0 o8 po sp [unfolded n] na ints pos pn pf by (rule that)
qed

lemma pass_dict_total:
  "pass_dict obj tk tc tf tp tfi tna chosen sk sc sf sp sfi sna ''Total_kcal_target_kcal'' = Some (VNum tk)"
  "pass_dict obj tk tc tf tp tfi tna chosen sk sc sf sp sfi sna ''Total_carbs_g'' = Some (VNum tc)"
  "pass_dict obj tk tc tf tp tfi tna chosen sk sc sf sp sfi sna ''Total_fat_g'' = Some (VNum tf)"
  "pass_dict obj tk tc tf tp tfi tna chosen sk sc sf sp sfi sna ''Total_protein_g'' = Some (VNum tp)"
  "pass_dict obj tk tc tf tp tfi tna chosen sk sc sf sp sfi sna ''Total_fiber_g'' = Some (VNum tfi)"
  "pass_dict obj tk tc tf tp tfi tna chosen sk sc sf sp sfi sna ''Total_sodium_mg'' = Some (VNum tna)"
  unfolding pass_dict_def split_fold names_fold
  by (simp_all only: lookup)

lemma pass_dict_name:
  "(i, m) \<in> set (enumerate 0 meals) \<Longrightarrow>
   pass_dict obj tk tc tf tp tfi tna chosen sk sc sf sp sfi sna (m @ ''_meal'') = Some (VStr (chosen ! i))"
  unfolding pass_dict_def split_fold names_fold
  unfolding enum_meals set_simps insert_iff empty_iff prod.inject
  by (elim disjE conjE FalseE; simp only: lookup append.simps)







lemma pass_dict_other:
  "k \<notin> set diet_keys \<Longrightarrow> pass_dict obj tk tc tf tp tfi tna chosen sk sc sf sp sfi sna k = obj k"
  unfolding pass_dict_def split_fold names_fold
  unfolding diet_keys_def totals_def meals_def mkeys_def
  by (simp only: set_simps set_append list.map concat.simps append.simps insert_iff empty_iff
        Un_iff de_Morgan_disj lookup)

lemma pass_dict_macro_present:
  "m \<in> set meals \<Longrightarrow> k \<in> set mkeys \<Longrightarrow>
   \<exists>x. pass_dict obj tk tc tf tp tfi tna chosen sk sc sf sp sfi sna (m @ ''_meal_'' @ k) = Some (VNum x)"
  unfolding pass_dict_def split_fold names_fold
  unfolding meals_def mkeys_def set_simps insert_iff empty_iff
  by (elim disjE FalseE; simp only: lookup append.simps option.inject pyval.inject ex_simps
        simp_thms)

subsection \<open>A pass is never degenerate\<close>

lemma first_meal_Inr:
  "(\<And>k. k \<in> set ks \<Longrightarrow> \<exists>v. obj (''1st_meal_'' @ k) = Some v) \<Longrightarrow>
   \<exists>f. first_meal obj ks = Inr f \<and> map fst f = ks"
proof (induction ks)
  case Nil
  then show ?case by simp
next
  case (Cons k ks)
  from Cons.prems [of k] obtain v where v: "obj (''1st_meal_'' @ k) = Some v" by auto
  from Cons.IH Cons.prems obtain f where "first_meal obj ks = Inr f" "map fst f = ks"
    by (metis list.set_intros(2))
  with v show ?case by (simp del: append.simps)
qed

lemma meals_differ_Inr:
  "(\<And>m k. (m, k) \<in> set mks \<Longrightarrow> \<exists>v. obj (m @ ''_meal_'' @ k) = Some v) \<Longrightarrow>
   (\<And>m k. (m, k) \<in> set mks \<Longrightarrow> k \<in> set (map fst first)) \<Longrightarrow>
   \<exists>b. meals_differ fl obj first mks = Inr b"
proof (induction mks)
  case Nil
  have "meals_differ fl obj first [] = Inr False" by simp
  then show ?case by (rule exI)
next
  case (Cons mk mks)
  obtain m k where mk: "mk = (m, k)" by (cases mk)
  from Cons.prems(1) [of m k] mk obtain v where v: "obj (m @ ''_meal_'' @ k) = Some v" by auto
  from Cons.prems(2) [of m k] mk have "k \<in> set (map fst first)" by simp
  then obtain v1 where v1: "map_of first k = Some v1"
    by (metis map_of_eq_None_iff not_Some_eq set_map)
  from Cons.IH Cons.prems obtain b where "meals_differ fl obj first mks = Inr b"
    by (metis list.set_intros(2))
  with v v1 mk show ?case by (auto simp del: append.simps)
qed

lemma all_meals_identical_False:
  assumes present: "\<And>m k. m \<in> set meals \<Longrightarrow> k \<in> set mkeys \<Longrightarrow>
                       \<exists>v. obj (m @ ''_meal_'' @ k) = Some v"
    and n1: "obj ''1st_meal'' = Some (VStr a)" and n2: "obj ''2nd_meal'' = Some (VStr b)"
    and ab: "a \<noteq> b"
  shows "all_meals_identical fl rp obj = Inr False"
proof -
  have "\<And>k. k \<in> set mkeys \<Longrightarrow> \<exists>v. obj (''1st_meal_'' @ k) = Some v"
    using present [of "''1st''"] by (simp add: meals_def)
  then obtain f where f: "first_meal obj mkeys = Inr f" "map fst f = mkeys"
    using first_meal_Inr by blast
  have "\<And>m k. (m, k) \<in> set (List.product (tl meals) mkeys) \<Longrightarrow>
      \<exists>v. obj (m @ ''_meal_'' @ k) = Some v"
    using present by (auto simp add: meals_def)
  moreover have "\<And>m k. (m, k) \<in> set (List.product (tl meals) mkeys) \<Longrightarrow>
      k \<in> set (map fst f)"
    using f(2) by auto
  ultimately obtain d where d: "meals_differ fl obj f (List.product (tl meals) mkeys) = Inr d"
    using meals_differ_Inr by blast
  have "list_ex (\<lambda>m. py_str rp (dget_or obj (m @ ''_meal'') (VStr [])) \<noteq>
       py_str rp (dget_or obj ''1st_meal'' (VStr []))) (tl meals)"
    using n1 n2 ab by (simp add: meals_def dget_or_def py_str_def)
  then show ?thesis
    unfolding all_meals_identical_def f(1) d ebind_Inr Let_def by simp
qed

lemma pass_dict_not_identical:
  assumes "chosen_names offset = Inr chosen" "0 \<le> offset"
  shows "all_meals_identical fl rp (pass_dict obj tk tc tf tp tfi tna chosen sk sc sf sp sfi sna)
           = Inr False"
proof (rule all_meals_identical_False)
  fix m k assume "m \<in> set meals" "k \<in> set mkeys"
  then show "\<exists>v. pass_dict obj tk tc tf tp tfi tna chosen sk sc sf sp sfi sna (m @ ''_meal_'' @ k)
           = Some v"
    using pass_dict_macro_present by blast
next
  have "(0, ''1st'') \<in> set (enumerate 0 meals)" by (simp add: enum_meals)
  from pass_dict_name [OF this]
  show "pass_dict obj tk tc tf tp tfi tna chosen sk sc sf sp sfi sna ''1st_meal''
      = Some (VStr (chosen ! 0))" by simp
next
  have "(1, ''2nd'') \<in> set (enumerate 0 meals)" by (simp add: enum_meals)
  from pass_dict_name [OF this]
  show "pass_dict obj tk tc tf tp tfi tna chosen sk sc sf sp sfi sna ''2nd_meal''
      = Some (VStr (chosen ! 1))" by simp
next
  from chosen_names_Inr(3,5) [OF assms] show "chosen ! 0 \<noteq> chosen ! 1"
    by (simp add: distinct_conv_nth)
qed

lemma diversify_pass_not_identical:
  assumes "diversify_pass R tie fl obj pid week_id persona nonce = Inr r"
  shows "all_meals_identical fl rp r = Inr False"
proof -
  from assms obtain tk tc tf tp tfi tna offset chosen sk sc sf sp sfi sna where
    "r = pass_dict obj (Fin tk) (Fin tc) (Fin tf) tp (Fin tfi) (Fin tna) chosen
           sk sc sf sp sfi sna"
    "chosen_names offset = Inr chosen" "0 \<le> offset"
    by (rule diversify_pass_form)
  then show ?thesis by (simp add: pass_dict_not_identical)
qed

subsection \<open>A pass succeeds under the contract of the generator\<close>

lemma split4_ok:
  assumes "rng_ok R"
  shows "\<exists>s g'. split4 R tie t g = Inr (s, g')"
proof (cases "f_le t (Fin 0)")
  case True
  then show ?thesis by (simp add: split4_def)
next
  case False
  obtain r1 g1 where r1: "rnd_random R g = (r1, g1)" by (cases "rnd_random R g")
  obtain r2 g2 where r2: "rnd_random R g1 = (r2, g2)" by (cases "rnd_random R g1")
  obtain r3 g3 where r3: "rnd_random R g2 = (r3, g3)" by (cases "rnd_random R g2")
  obtain r4 g4 where r4: "rnd_random R g3 = (r4, g4)" by (cases "rnd_random R g3")
  from assms r1 r2 r3 r4 have "0 \<le> r1" "0 \<le> r2" "0 \<le> r3" "0 \<le> r4"
    unfolding rng_ok_def by (metis fst_conv)+
  then have "r1 + 3/10 + (r2 + 3/10) + (r3 + 3/10) + (r4 + 3/10) \<noteq> 0" by linarith
  with False show ?thesis
    by (simp add: split4_def dirichlet4_def Let_def r1 r2 r3 r4)
qed

lemma chosen_names_ok:
  assumes "0 \<le> offset" "offset \<le> 9"
  shows "\<exists>chosen. chosen_names offset = Inr chosen"
proof -
  from assms consider "offset = 0" | "offset = 1" | "offset = 2" | "offset = 3"
    | "offset = 4" | "offset = 5" | "offset = 6" | "offset = 7" | "offset = 8" | "offset = 9"
    by atomize_elim presburger
  then show ?thesis
    by cases (simp_all add: chosen_names_def py_index_def Let_def length_SAUDI_MEAL_NAMES)
qed

lemma re_totals_ok:
  assumes "get_lower persona ''Primary_goal'' = Inr goal"
  shows "\<exists>obj1 g1. re_totals_with_jitter R tie fl obj persona g = Inr (obj1, g1)"
  unfolding re_totals_with_jitter_def assms ebind_Inr Let_def case_prod_beta
  by (intro exI) (rule refl)

lemma diversify_pass_ok:
  assumes "rng_ok R" "get_lower persona ''Primary_goal'' = Inr goal"
  shows "\<exists>r. diversify_pass R tie fl obj pid week_id persona nonce = Inr r"
proof -
  define g0 where "g0 = rnd_new R (rnd_sha R (diet_seed pid week_id nonce))"
  from re_totals_ok [OF assms(2), of R tie fl obj g0] obtain obj1 g1 where
    re: "re_totals_with_jitter R tie fl obj persona g0 = Inr (obj1, g1)" by blast
  obtain n g2 where n: "rnd_below R 9 g1 = (n, g2)" by (cases "rnd_below R 9 g1")
  with assms(1) have "n < 9" unfolding rng_ok_def by (metis fst_conv zero_less_numeral)
  have rr: "randrange R 0 (int (length SAUDI_MEAL_NAMES) - 4) g1 = Inr (int n, g2)"
    by (simp add: randrange_def length_SAUDI_MEAL_NAMES n)
  from \<open>n < 9\<close> obtain chosen where ch: "chosen_names (int n) = Inr chosen"
    using chosen_names_ok [of "int n"] by auto
  define obj2 where "obj2 = fold (set_meal_name chosen) (enumerate 0 meals) obj1"
  from split4_ok [OF assms(1), of tie "num_at obj2 ''Total_kcal_target_kcal''" g2] obtain sk g3 where
    s1: "split4 R tie (num_at obj2 ''Total_kcal_target_kcal'') g2 = Inr (sk, g3)" by blast
  from split4_ok [OF assms(1), of tie "num_at obj2 ''Total_carbs_g''" g3] obtain sc g4 where
    s2: "split4 R tie (num_at obj2 ''Total_carbs_g'') g3 = Inr (sc, g4)" by blast
  from split4_ok [OF assms(1), of tie "num_at obj2 ''Total_fat_g''" g4] obtain sf g5 where
    s3: "split4 R tie (num_at obj2 ''Total_fat_g'') g4 = Inr (sf, g5)" by blast
  from split4_ok [OF assms(1), of tie "num_at obj2 ''Total_protein_g''" g5] obtain sp g6 where
    s4: "split4 R tie (num_at obj2 ''Total_protein_g'') g5 = Inr (sp, g6)" by blast
  from split4_ok [OF assms(1), of tie "num_at obj2 ''Total_fiber_g''" g6] obtain sfi g7 where
    s5: "split4 R tie (num_at obj2 ''Total_fiber_g'') g6 = Inr (sfi, g7)" by blast
  from split4_ok [OF assms(1), of tie "num_at obj2 ''Total_sodium_mg''" g7] obtain sna g8 where
    s6: "split4 R tie (num_at obj2 ''Total_sodium_mg'') g7 = Inr (sna, g8)" by blast
  show ?thesis
    unfolding diversify_pass_def Let_def g0_def [symmetric] re ebind_Inr prod.case rr ch
      obj2_def [symmetric] s1 s2 s3 s4 s5 s6
    by blast
qed

subsection \<open>When the recursion stops\<close>

lemma diversify_meals_stops:
  assumes "diversify_pass R tie fl obj pid week_id persona nonce = Inr r"
    and "\<not> similar_overview fl rp r last_week"
  shows "diversify_meals R tie fl rp obj pid week_id persona last_week nonce = Some (Inr r)"
  by (subst diversify_meals.simps)
    (simp add: assms diversify_pass_not_identical [OF assms(1)])

lemma diversify_meals_retries:
  assumes "diversify_pass R tie fl obj pid week_id persona nonce = Inr r"
    and "similar_overview fl rp r last_week"
  shows "diversify_meals R tie fl rp obj pid week_id persona last_week nonce =
         diversify_meals R tie fl rp r pid week_id persona last_week (nonce + 1)"
  by (subst diversify_meals.simps)
    (simp add: assms diversify_pass_not_identical [OF assms(1)])

subsection \<open>Names and totals of a returned diet\<close>

lemma pass_dict_meal_names:
  assumes "length chosen = 4"
  shows "meal_names (pass_dict obj tk tc tf tp tfi tna chosen sk sc sf sp sfi sna) = map VStr chosen"
proof -
  have e: "(0, ''1st'') \<in> set (enumerate 0 meals)" "(1, ''2nd'') \<in> set (enumerate 0 meals)"
    "(2, ''3rd'') \<in> set (enumerate 0 meals)" "(3, ''4th'') \<in> set (enumerate 0 meals)"
    by (simp_all add: enum_meals)
  have "meal_names (pass_dict obj tk tc tf tp tfi tna chosen sk sc sf sp sfi sna) = [VStr (chosen ! 0), VStr (chosen ! 1), VStr (chosen ! 2), VStr (chosen ! 3)]"
    using pass_dict_name [OF e(1), of obj tk tc tf tp tfi tna chosen sk sc sf sp sfi sna]
      pass_dict_name [OF e(2), of obj tk tc tf tp tfi tna chosen sk sc sf sp sfi sna]
      pass_dict_name [OF e(3), of obj tk tc tf tp tfi tna chosen sk sc sf sp sfi sna]
      pass_dict_name [OF e(4), of obj tk tc tf tp tfi tna chosen sk sc sf sp sfi sna]
    by (simp add: meal_names_def meals_def dget_def)
  also from assms have "\<dots> = map VStr chosen"
    by (auto simp add: list_eq_iff_nth_eq nth_Cons' numeral_eq_Suc less_Suc_eq)
  finally show ?thesis .
qed

lemma diversify_pass_meal_names:
  assumes "diversify_pass R tie fl obj pid week_id persona nonce = Inr r"
  shows "meal_names r =
           map (\<lambda>i. VStr (SAUDI_MEAL_NAMES ! (nat (pass_offset R pid week_id nonce) + i))) [0, 1, 2, 3]"
    and "distinct (meal_names r)" and "VStr [] \<notin> set (meal_names r)"
    and "pass_offset R pid week_id nonce \<le> 9"
    and "rng_ok R \<longrightarrow> pass_offset R pid week_id nonce \<le> 8"
proof -
  from assms obtain tk tc tf tp tfi tna offset chosen sk sc sf sp sfi sna where
    r: "r = pass_dict obj (Fin tk) (Fin tc) (Fin tf) tp (Fin tfi) (Fin tna) chosen
              sk sc sf sp sfi sna"
    and ch: "chosen_names offset = Inr chosen" and o0: "0 \<le> offset"
    and o8: "rng_ok R \<longrightarrow> offset \<le> 8"
    and po: "offset = pass_offset R pid week_id nonce"
    by (rule diversify_pass_form)
  note c = chosen_names_Inr [OF ch o0]
  have mn: "meal_names r = map VStr chosen"
    unfolding r by (rule pass_dict_meal_names [OF c(5)])
  from c(2) show "meal_names r =
           map (\<lambda>i. VStr (SAUDI_MEAL_NAMES ! (nat (pass_offset R pid week_id nonce) + i))) [0, 1, 2, 3]"
    by (simp add: mn po)
  from c(3) show "distinct (meal_names r)"
    by (simp add: mn distinct_map inj_on_def)
  from c(4) show "VStr [] \<notin> set (meal_names r)"
    by (auto simp add: mn)
  from c(1) po show "pass_offset R pid week_id nonce \<le> 9" by simp
  from o8 po show "rng_ok R \<longrightarrow> pass_offset R pid week_id nonce \<le> 8" by simp
qed

lemma power2_gap: "(2::int) ^ 970 < 2 ^ 1024"
  by (rule power_strict_increasing) simp_all

lemma int_too_large_small: "\<bar>i\<bar> \<le> 1 \<Longrightarrow> \<not> int_too_large i"
proof -
  assume a: "\<bar>i\<bar> \<le> 1"
  have g: "\<And>a b :: int. a * 2 \<le> b \<Longrightarrow> 2 \<le> a \<Longrightarrow> 1 < b - a" by linarith
  have p1: "(2::int) ^ 970 * 2 \<le> 2 ^ 1024"
    using power_increasing [of 971 1024 "2::int"] by simp
  have p2: "(2::int) \<le> 2 ^ 970"
    using power_increasing [of 1 970 "2::int"] by simp
  have l: "\<And>c :: int. 1 < c \<Longrightarrow> \<not> c \<le> \<bar>i\<bar>" using a by linarith
  from l [OF g [OF p1 p2]] show ?thesis unfolding int_too_large_def .
qed

lemma py_f_VInt0 [simp]: "py_f fl (VInt 0) d = Fin 0"
  using int_too_large_small [of 0] by (simp add: py_f_def)

lemma diversify_pass_sodium:
  assumes "diversify_pass R tie fl obj pid week_id persona nonce = Inr r"
  shows "\<exists>t. r ''Total_sodium_mg'' = Some (VNum (Fin t)) \<and> 1500 \<le> t"
proof -
  from assms obtain tk tc tf tp tfi tna offset chosen sk sc sf sp sfi sna where
    r: "r = pass_dict obj (Fin tk) (Fin tc) (Fin tf) tp (Fin tfi) (Fin tna) chosen
              sk sc sf sp sfi sna"
    and na: "1500 \<le> tna"
    by (rule diversify_pass_form)
  from na show ?thesis unfolding r by (simp add: pass_dict_total)
qed

lemma far_from_sodium:
  assumes "1500 \<le> t" and "\<forall>x. y = Fin x \<longrightarrow> x \<le> 1499"
  shows "\<not> f_le (fabs (fsub (Fin t) y)) (Fin tol)"
proof (cases y)
  case (Fin x)
  with assms have "x \<le> 1499" by simp
  with assms(1) have "\<not> \<bar>t - x\<bar> \<le> tol" "\<not> \<bar>t - x\<bar> < tol"
    by (simp_all add: tol_def)
  with Fin show ?thesis by (simp add: f_le_def fsub_def)
next
  case PInf
  then show ?thesis by (simp add: f_le_def fsub_def)
next
  case NInf
  then show ?thesis by (simp add: f_le_def fsub_def)
next
  case NaN
  then show ?thesis by (simp add: f_le_def fsub_def)
qed

lemma not_close_totals:
  assumes "diversify_pass R tie fl obj pid week_id persona nonce = Inr r"
    and "\<forall>x. py_f fl (dget_or b ''Total_sodium_mg'' (VInt 0)) (Fin 0) = Fin x \<longrightarrow> x \<le> 1499"
  shows "\<not> close_totals fl r b"
proof -
  from diversify_pass_sodium [OF assms(1)] obtain t where
    t: "r ''Total_sodium_mg'' = Some (VNum (Fin t))" "1500 \<le> t" by blast
  from t(1) have "py_f fl (dget_or r ''Total_sodium_mg'' (VInt 0)) (Fin 0) = Fin t"
    by (simp add: dget_or_def)
  with far_from_sodium [OF t(2) assms(2)]
  have "\<not> f_le (fabs (fsub (py_f fl (dget_or r ''Total_sodium_mg'' (VInt 0)) (Fin 0))
                 (py_f fl (dget_or b ''Total_sodium_mg'' (VInt 0)) (Fin 0)))) (Fin tol)"
    by simp
  then show ?thesis
    by (simp add: close_totals_def totals_def)
qed

lemma not_similar_empty:
  assumes "diversify_pass R tie fl obj pid week_id persona nonce = Inr r"
  shows "\<not> same_names rp r Map.empty" and "\<not> close_totals fl r Map.empty"
proof -
  from diversify_pass_meal_names(1,3) [OF assms]
  have "dget r ''1st_meal'' = VStr (SAUDI_MEAL_NAMES ! (nat (pass_offset R pid week_id nonce) + 0))"
    and "dget r ''1st_meal'' \<noteq> VStr []"
    by (auto simp add: meal_names_def meals_def)
  then obtain s where s: "dget r ''1st_meal'' = VStr s" "s \<noteq> []" by auto
  then have "r ''1st_meal'' = Some (VStr s)"
    by (cases "r ''1st_meal''") (simp_all add: dget_def)
  with s(2) show "\<not> same_names rp r Map.empty"
    by (simp add: same_names_def meals_def dget_or_def py_str_def)
  show "\<not> close_totals fl r Map.empty"
    by (rule not_close_totals [OF assms]) (simp add: dget_or_def)
qed

subsection \<open>The library generator on the recorded seeds\<close>

lemma mt_random_two:
  "0 \<le> fst (mt_random (a # b # ws)) \<and> fst (mt_random (a # b # ws)) < 1"
proof -
  define A where "A = (a mod 4294967296) div 32"
  define B where "B = (b mod 4294967296) div 64"
  have "a mod 4294967296 < 4294967296" "b mod 4294967296 < 4294967296" by simp_all
  then have "A < 134217728" "B < 67108864"
    unfolding A_def B_def by (simp_all add: div_less_iff_less_mult)
  then have "A * 67108864 + B < 9007199254740992" by simp
  then have "real (A * 67108864 + B) < 9007199254740992"
    by (metis of_nat_less_iff of_nat_numeral)
  then show ?thesis
    unfolding mt_random.simps fst_conv A_def [symmetric] B_def [symmetric] by simp
qed

lemma mt_random_range: "0 \<le> fst (mt_random g) \<and> fst (mt_random g) < 1"
proof (cases g)
  case Nil
  then show ?thesis by simp
next
  case (Cons a g')
  show ?thesis
  proof (cases g')
    case Nil
    with Cons show ?thesis by simp
  next
    case (Cons b ws)
    show ?thesis
      unfolding \<open>g = a # g'\<close> Cons by (rule mt_random_two)
  qed
qed

lemma mt_getbelow_range: "0 < n \<Longrightarrow> fst (mt_getbelow n k g) < n"
  by (induction g) (simp_all add: Let_def)

lemma rng_ok_mt: "rng_ok mt_rng"
  unfolding rng_ok_def
  by (simp add: mt_rng_def mt_random_range mt_getbelow_range)

lemma digit_char_0: "digit_char 0 = CHR ''0''"
  unfolding digit_char_def by code_simp

lemma digit_char_1: "digit_char (Suc 0) = CHR ''1''"
  unfolding digit_char_def by code_simp

lemma str_int_0: "str_int 0 = ''0''"
  by (simp add: str_int_def digit_char_0)

lemma str_int_1: "str_int 1 = ''1''"
  by (simp add: str_int_def digit_char_1)

lemma bit_length_9: "bit_length 9 = 4"
  by (simp add: bit_length.simps)

lemma mt_offset_0: "pass_offset mt_rng ''P01'' ''Week_2025_47'' 0 = 8"
  by (simp add: pass_offset_def after_totals_def mt_rng_def diet_seed_def str_int_0
        sha_table_def mt_table_def bit_length_9 Let_def)

lemma mt_offset_1: "pass_offset mt_rng ''P01'' ''Week_2025_47'' 1 = 4"
  by (simp add: pass_offset_def after_totals_def mt_rng_def diet_seed_def str_int_1
        sha_table_def mt_table_def bit_length_9 Let_def)

lemma persona_mg_goal: "get_lower persona_mg ''Primary_goal'' = Inr ''muscle gain''"
  by (simp add: get_lower_def persona_mg_def dget_def py_or_def lower_def lower_char_def)


lemma mt_pass_0:
  "diversify_pass mt_rng half_even no_float Map.empty ''P01'' ''Week_2025_47'' persona_mg 0
     = Inr diet0"
  using diversify_pass_ok [OF rng_ok_mt persona_mg_goal, of half_even no_float Map.empty
      "''P01''" "''Week_2025_47''" 0]
  by (auto simp add: diet0_def the_diet_def)

lemma mt_pass_1:
  "diversify_pass mt_rng half_even no_float diet0 ''P01'' ''Week_2025_47'' persona_mg 1
     = Inr diet1"
  using diversify_pass_ok [OF rng_ok_mt persona_mg_goal, of half_even no_float diet0
      "''P01''" "''Week_2025_47''" 1]
  by (auto simp add: diet1_def the_diet_def)


lemma diet0_names:
  "meal_names diet0 = [VStr ''Margoog (light) + salad'', VStr ''Thareed (lean beef + veg)'',
     VStr ''Harees (light) + salad'', VStr ''Egg shakshouka + bread'']"
  using diversify_pass_meal_names(1) [OF mt_pass_0]
  by (simp add: mt_offset_0 SAUDI_MEAL_NAMES_def)

lemma diet1_names:
  "meal_names diet1 = [VStr ''Balila cup (chickpeas)'', VStr ''Grilled Hammour + rice + salad'',
     VStr ''Labneh + cucumbers + olives + bread'', VStr ''Tuna salad + lemon + olive oil'']"
  using diversify_pass_meal_names(1) [OF mt_pass_1]
  by (simp add: mt_offset_1 SAUDI_MEAL_NAMES_def)

lemma last0_not_empty: "last0 \<noteq> Map.empty"
proof
  assume e: "last0 = Map.empty"
  have "last0 ''1st_meal'' = None" unfolding e by simp
  then show False by (simp add: last0_def)
qed

lemma same_names_dget:
  "same_names rp a b \<longleftrightarrow>
     map (\<lambda>m. py_str rp (dget_or a (m @ ''_meal'') (VStr []))) meals
     = map (\<lambda>m. py_str rp (dget_or b (m @ ''_meal'') (VStr []))) meals"
  by (simp add: same_names_def meals_def)

lemma py_str_dget_or:
  "dget a k = VStr s \<Longrightarrow> py_str rp (dget_or a k (VStr [])) = s"
  by (cases "a k") (simp_all add: dget_def dget_or_def py_str_def)

lemma diet0_similar: "similar_overview no_float no_repr diet0 (Some last0)"
proof -
  from diet0_names have
    "dget diet0 ''1st_meal'' = VStr ''Margoog (light) + salad''"
    "dget diet0 ''2nd_meal'' = VStr ''Thareed (lean beef + veg)''"
    "dget diet0 ''3rd_meal'' = VStr ''Harees (light) + salad''"
    "dget diet0 ''4th_meal'' = VStr ''Egg shakshouka + bread''"
    by (simp_all add: meal_names_def meals_def)
  then have "same_names no_repr diet0 last0"
    by (simp add: same_names_def meals_def py_str_dget_or)
      (simp add: last0_def dget_or_def py_str_def)
  then show ?thesis
    by (simp add: similar_overview_def last0_not_empty)
qed

lemma diet1_not_same_names: "\<not> same_names no_repr diet1 last0"
proof -
  from diet1_names have "dget diet1 ''1st_meal'' = VStr ''Balila cup (chickpeas)''"
    by (simp add: meal_names_def meals_def)
  then show ?thesis
    by (simp add: same_names_def meals_def py_str_dget_or)
      (simp add: last0_def dget_or_def py_str_def)
qed

lemma diet1_not_close: "\<not> close_totals no_float diet1 last0"
  by (rule not_close_totals [OF mt_pass_1]) (simp add: last0_def dget_or_def)

lemma mt_run:
  "diversify_meals mt_rng half_even no_float no_repr Map.empty ''P01'' ''Week_2025_47'' persona_mg
     (Some last0) 0 = Some (Inr diet1)"
proof -
  have "\<not> similar_overview no_float no_repr diet1 (Some last0)"
    by (simp add: similar_overview_def diet1_not_same_names diet1_not_close)
  from diversify_meals_stops [OF mt_pass_1 this]
  show ?thesis
    by (simp add: diversify_meals_retries [OF mt_pass_0 diet0_similar])
qed

section \<open>Claims about the diversification engine\<close>

lemma diversify_meals_pass:
  assumes "diversify_meals R tie fl rp obj pid week_id persona last_week nonce = Some (Inr r)"
  obtains obj' n where "nonce \<le> n" "diversify_pass R tie fl obj' pid week_id persona n = Inr r"
    "all_meals_identical fl rp r = Inr False" "\<not> similar_overview fl rp r last_week"
  using diversify_meals_accepts [OF assms] by (auto simp add: accepted_def)

text \<open>
  C10: whenever \<^verbatim>\<open>diversify_meals\<close> returns a diet, its four meal names are four
  consecutive entries of the pool of thirteen pairwise distinct names, starting at an
  offset between 0 and 8: they are non-empty and pairwise distinct.
\<close>

theorem C10_meal_names_window:
  assumes "diversify_meals R tie fl rp obj pid week_id persona last_week nonce = Some (Inr r)"
    and "rng_ok R"
  shows "(\<exists>offset\<le>8. meal_names r = map (\<lambda>i. VStr (SAUDI_MEAL_NAMES ! (offset + i))) [0, 1, 2, 3])
         \<and> distinct (meal_names r) \<and> VStr [] \<notin> set (meal_names r)
         \<and> length SAUDI_MEAL_NAMES = 13 \<and> distinct SAUDI_MEAL_NAMES"
proof -
  from assms(1) obtain obj' n where
    p: "diversify_pass R tie fl obj' pid week_id persona n = Inr r"
    by (rule diversify_meals_pass)
  note m = diversify_pass_meal_names [OF p]
  from m(5) assms(2) have "nat (pass_offset R pid week_id n) \<le> 8" by simp
  with m(1) have "\<exists>offset\<le>8. meal_names r =
      map (\<lambda>i. VStr (SAUDI_MEAL_NAMES ! (offset + i))) [0, 1, 2, 3]"
    by blast
  moreover have "distinct SAUDI_MEAL_NAMES"
    by (simp add: SAUDI_MEAL_NAMES_def)
  ultimately show ?thesis
    using m(2,3) length_SAUDI_MEAL_NAMES by blast
qed

theorem C10_meal_names_window_witness:
  "rng_ok mt_rng
   \<and> diversify_meals mt_rng half_even no_float no_repr Map.empty ''P01'' ''Week_2025_47'' persona_mg
        (Some last0) 0 = Some (Inr diet1)
   \<and> meal_names diet1 = [VStr ''Balila cup (chickpeas)'', VStr ''Grilled Hammour + rice + salad'',
        VStr ''Labneh + cucumbers + olives + bread'', VStr ''Tuna salad + lemon + olive oil'']
   \<and> distinct (meal_names diet1) \<and> VStr [] \<notin> set (meal_names diet1)"
  using C10_meal_names_window [OF mt_run rng_ok_mt] mt_run rng_ok_mt diet1_names
  by simp

text \<open>
  C3: a diet returned by \<^verbatim>\<open>diversify_meals\<close> passed the final test of the source: it is
  not a diet of four identical meals under one name (its four names are pairwise
  distinct), and against any last week's diet it has neither the same four meal names nor
  six totals within \<open>1e-6\<close>.  A candidate that fails the test is not returned: the result of
  the call is the result of the call on the candidate with \<open>nonce + 1\<close>, and nothing
  bounds the number of such steps.
\<close>

theorem C3_returned_diet_passed_the_test:
  "(diversify_meals R tie fl rp obj pid week_id persona last_week nonce = Some (Inr r) \<longrightarrow>
      all_meals_identical fl rp r = Inr False \<and> distinct (meal_names r)
      \<and> (\<forall>b. last_week = Some b \<longrightarrow> \<not> same_names rp r b \<and> \<not> close_totals fl r b))
   \<and> (diversify_pass R tie fl obj pid week_id persona nonce = Inr c \<longrightarrow>
      (all_meals_identical fl rp c = Inr True \<or> similar_overview fl rp c last_week) \<longrightarrow>
      diversify_meals R tie fl rp obj pid week_id persona last_week nonce
        = diversify_meals R tie fl rp c pid week_id persona last_week (nonce + 1))"
proof (intro conjI impI)
  assume ret: "diversify_meals R tie fl rp obj pid week_id persona last_week nonce = Some (Inr r)"
  then obtain obj' n where
    p: "diversify_pass R tie fl obj' pid week_id persona n = Inr r"
    and i: "all_meals_identical fl rp r = Inr False"
    and s: "\<not> similar_overview fl rp r last_week"
    by (rule diversify_meals_pass)
  from i show "all_meals_identical fl rp r = Inr False" .
  from diversify_pass_meal_names(2) [OF p] show "distinct (meal_names r)" .
  show "\<forall>b. last_week = Some b \<longrightarrow> \<not> same_names rp r b \<and> \<not> close_totals fl r b"
  proof (intro allI impI)
    fix b assume b: "last_week = Some b"
    show "\<not> same_names rp r b \<and> \<not> close_totals fl r b"
    proof (cases "b = Map.empty")
      case True
      with not_similar_empty [OF p] show ?thesis by simp
    next
      case False
      with s b show ?thesis by (simp add: similar_overview_def)
    qed
  qed
next
  assume p: "diversify_pass R tie fl obj pid week_id persona nonce = Inr c"
    and t: "all_meals_identical fl rp c = Inr True \<or> similar_overview fl rp c last_week"
  show "diversify_meals R tie fl rp obj pid week_id persona last_week nonce
        = diversify_meals R tie fl rp c pid week_id persona last_week (nonce + 1)"
    using t
    by (subst diversify_meals.simps) (auto simp add: p diversify_pass_not_identical [OF p])
qed

theorem C3_returned_diet_passed_the_test_witness:
  "diversify_meals mt_rng half_even no_float no_repr Map.empty ''P01'' ''Week_2025_47'' persona_mg
      (Some last0) 0 = Some (Inr diet1)
   \<and> all_meals_identical no_float no_repr diet1 = Inr False
   \<and> \<not> same_names no_repr diet1 last0 \<and> \<not> close_totals no_float diet1 last0
   \<and> diversify_pass mt_rng half_even no_float Map.empty ''P01'' ''Week_2025_47'' persona_mg 0 = Inr diet0
   \<and> similar_overview no_float no_repr diet0 (Some last0)
   \<and> diversify_meals mt_rng half_even no_float no_repr Map.empty ''P01'' ''Week_2025_47'' persona_mg
        (Some last0) 0
     = diversify_meals mt_rng half_even no_float no_repr diet0 ''P01'' ''Week_2025_47'' persona_mg
        (Some last0) (0 + 1)"
  using C3_returned_diet_passed_the_test [of mt_rng half_even no_float no_repr Map.empty "''P01''"
      "''Week_2025_47''" persona_mg "Some last0" 0 diet1 diet0]
    mt_run mt_pass_0 diet0_similar
  by blast

subsection \<open>A pass overwrites the diet fields and reads none of them\<close>

lemma emap_Inr [simp]: "emap h (Inr x) = Inr (h x)"
  by (simp add: emap_def)

lemma emap_Inl [simp]: "emap h (Inl e) = Inl e"
  by (simp add: emap_def)

lemma emap_ebind: "emap h (ebind m f) = ebind m (\<lambda>x. emap h (f x))"
  by (cases m) simp_all

lemma re_totals_frame:
  "re_totals_with_jitter R tie fl obj persona g =
     emap (\<lambda>ug. (obj ++ fst ug, snd ug)) (re_totals_with_jitter R tie fl Map.empty persona g)"
proof (cases "get_lower persona ''Primary_goal''")
  case (Inl e)
  then show ?thesis by (simp add: re_totals_with_jitter_def Let_def)
next
  case (Inr goal)
  show ?thesis
    unfolding re_totals_with_jitter_def Inr ebind_Inr Let_def case_prod_beta emap_Inr
      fst_conv snd_conv
    by (simp only: map_add_upd map_add_empty)
qed

lemma pass_dict_frame:
  "pass_dict (obj ++ u) tk tc tf tp tfi tna chosen sk sc sf sp sfi sna =
   obj ++ pass_dict u tk tc tf tp tfi tna chosen sk sc sf sp sfi sna"
  unfolding pass_dict_def split_fold names_fold
  by (simp only: map_add_upd)

lemma diversify_pass_eq_pass_dict:
  assumes "diversify_pass R tie fl obj pid week_id persona nonce = Inr r"
    and "diversify_pass R tie fl obj' pid week_id persona nonce = Inr r'"
  shows "\<exists>tk tc tf tp tfi tna chosen sk sc sf sp sfi sna.
           r = pass_dict obj tk tc tf tp tfi tna chosen sk sc sf sp sfi sna
         \<and> r' = pass_dict obj' tk tc tf tp tfi tna chosen sk sc sf sp sfi sna"
proof -
  define g0 where "g0 = rnd_new R (rnd_sha R (diet_seed pid week_id nonce))"
  from assms(1) obtain obj1 g1 offset g2 chosen sk g3 sc g4 sf g5 sp g6 sfi g7 sna g8 where
    re: "re_totals_with_jitter R tie fl obj persona g0 = Inr (obj1, g1)"
    and rr: "randrange R 0 (int (length SAUDI_MEAL_NAMES) - 4) g1 = Inr (offset, g2)"
    and ch: "chosen_names offset = Inr chosen"
    and sp: "split4 R tie (num_at obj1 ''Total_kcal_target_kcal'') g2 = Inr (sk, g3)"
      "split4 R tie (num_at obj1 ''Total_carbs_g'') g3 = Inr (sc, g4)"
      "split4 R tie (num_at obj1 ''Total_fat_g'') g4 = Inr (sf, g5)"
      "split4 R tie (num_at obj1 ''Total_protein_g'') g5 = Inr (sp, g6)"
      "split4 R tie (num_at obj1 ''Total_fiber_g'') g6 = Inr (sfi, g7)"
      "split4 R tie (num_at obj1 ''Total_sodium_mg'') g7 = Inr (sna, g8)"
    and r: "r = fold (set_meal_split sk sc sf sp sfi sna) (enumerate 0 meals)
           (fold (set_meal_name chosen) (enumerate 0 meals) obj1)"
    unfolding g0_def by (rule diversify_pass_Inr)
  from assms(2) obtain obj1' g1' offset' g2' chosen' sk' g3' sc' g4' sf' g5' sp' g6' sfi' g7'
      sna' g8' where
    re': "re_totals_with_jitter R tie fl obj' persona g0 = Inr (obj1', g1')"
    and rr': "randrange R 0 (int (length SAUDI_MEAL_NAMES) - 4) g1' = Inr (offset', g2')"
    and ch': "chosen_names offset' = Inr chosen'"
    and sp': "split4 R tie (num_at obj1' ''Total_kcal_target_kcal'') g2' = Inr (sk', g3')"
      "split4 R tie (num_at obj1' ''Total_carbs_g'') g3' = Inr (sc', g4')"
      "split4 R tie (num_at obj1' ''Total_fat_g'') g4' = Inr (sf', g5')"
      "split4 R tie (num_at obj1' ''Total_protein_g'') g5' = Inr (sp', g6')"
      "split4 R tie (num_at obj1' ''Total_fiber_g'') g6' = Inr (sfi', g7')"
      "split4 R tie (num_at obj1' ''Total_sodium_mg'') g7' = Inr (sna', g8')"
    and r': "r' = fold (set_meal_split sk' sc' sf' sp' sfi' sna') (enumerate 0 meals)
           (fold (set_meal_name chosen') (enumerate 0 meals) obj1')"
    unfolding g0_def by (rule diversify_pass_Inr)
  from re obtain u gu where u: "re_totals_with_jitter R tie fl Map.empty persona g0 = Inr (u, gu)"
    and o1: "obj1 = obj ++ u" and gg: "g1 = gu"
    by (subst (asm) re_totals_frame) (auto simp add: emap_def split: sum.splits)
  from re' u have o1': "obj1' = obj' ++ u" and gg': "g1' = gu"
    by (subst (asm) re_totals_frame, simp)+
  from u obtain tk tc tf tp tfi tna where
    ut: "u = Map.empty(''Total_kcal_target_kcal'' \<mapsto> VNum (Fin tk),
              ''Total_carbs_g'' \<mapsto> VNum (Fin tc),
              ''Total_fat_g'' \<mapsto> VNum (Fin tf),
              ''Total_protein_g'' \<mapsto> VNum tp,
              ''Total_fiber_g'' \<mapsto> VNum (Fin tfi),
              ''Total_sodium_mg'' \<mapsto> VNum (Fin tna))"
    by (rule re_totals_Inr)
  have o: "obj1 = obj(''Total_kcal_target_kcal'' \<mapsto> VNum (Fin tk),
              ''Total_carbs_g'' \<mapsto> VNum (Fin tc),
              ''Total_fat_g'' \<mapsto> VNum (Fin tf),
              ''Total_protein_g'' \<mapsto> VNum tp,
              ''Total_fiber_g'' \<mapsto> VNum (Fin tfi),
              ''Total_sodium_mg'' \<mapsto> VNum (Fin tna))"
    and o': "obj1' = obj'(''Total_kcal_target_kcal'' \<mapsto> VNum (Fin tk),
              ''Total_carbs_g'' \<mapsto> VNum (Fin tc),
              ''Total_fat_g'' \<mapsto> VNum (Fin tf),
              ''Total_protein_g'' \<mapsto> VNum tp,
              ''Total_fiber_g'' \<mapsto> VNum (Fin tfi),
              ''Total_sodium_mg'' \<mapsto> VNum (Fin tna))"
    unfolding o1 o1' ut by (simp_all only: map_add_upd map_add_empty)
  have n: "num_at obj1 ''Total_kcal_target_kcal'' = Fin tk" "num_at obj1 ''Total_carbs_g'' = Fin tc"
    "num_at obj1 ''Total_fat_g'' = Fin tf" "num_at obj1 ''Total_protein_g'' = tp"
    "num_at obj1 ''Total_fiber_g'' = Fin tfi" "num_at obj1 ''Total_sodium_mg'' = Fin tna"
    unfolding o by simp_all
  have n': "num_at obj1' ''Total_kcal_target_kcal'' = Fin tk" "num_at obj1' ''Total_carbs_g'' = Fin tc"
    "num_at obj1' ''Total_fat_g'' = Fin tf" "num_at obj1' ''Total_protein_g'' = tp"
    "num_at obj1' ''Total_fiber_g'' = Fin tfi" "num_at obj1' ''Total_sodium_mg'' = Fin tna"
    unfolding o' by simp_all
  from rr rr' gg gg' have e1: "offset' = offset" "g2' = g2" by simp_all
  with ch ch' have e2: "chosen' = chosen" by simp
  from sp(1) sp'(1) have e3: "sk' = sk" "g3' = g3" unfolding n n' e1 by simp_all
  from sp(2) sp'(2) have e4: "sc' = sc" "g4' = g4" unfolding n n' e3 by simp_all
  from sp(3) sp'(3) have e5: "sf' = sf" "g5' = g5" unfolding n n' e4 by simp_all
  from sp(4) sp'(4) have e6: "sp' = sp" "g6' = g6" unfolding n n' e5 by simp_all
  from sp(5) sp'(5) have e7: "sfi' = sfi" "g7' = g7" unfolding n n' e6 by simp_all
  from sp(6) sp'(6) have e8: "sna' = sna" unfolding n n' e7 by simp_all
  have "r = pass_dict obj (Fin tk) (Fin tc) (Fin tf) tp (Fin tfi) (Fin tna) chosen
      sk sc sf sp sfi sna"
    unfolding r pass_dict_def o ..
  moreover have "r' = pass_dict obj' (Fin tk) (Fin tc) (Fin tf) tp (Fin tfi) (Fin tna) chosen
      sk sc sf sp sfi sna"
    unfolding r' pass_dict_def o' e2 e3 e4 e5 e6 e7 e8 ..
  ultimately show ?thesis by blast
qed

lemma diversify_pass_frame:
  "diversify_pass R tie fl obj pid week_id persona nonce =
     emap (\<lambda>u. obj ++ u) (diversify_pass R tie fl Map.empty pid week_id persona nonce)"
proof -
  define g0 where "g0 = rnd_new R (rnd_sha R (diet_seed pid week_id nonce))"
  show ?thesis
  proof (cases "re_totals_with_jitter R tie fl Map.empty persona g0")
    case (Inl e)
    then show ?thesis
      unfolding diversify_pass_def Let_def g0_def [symmetric]
      by (subst re_totals_frame) simp
  next
    case (Inr p)
    obtain u gu where p: "p = (u, gu)" by (cases p)
    from Inr [unfolded p] obtain tk tc tf tp tfi tna where
      ut: "u = Map.empty(''Total_kcal_target_kcal'' \<mapsto> VNum (Fin tk),
              ''Total_carbs_g'' \<mapsto> VNum (Fin tc),
              ''Total_fat_g'' \<mapsto> VNum (Fin tf),
              ''Total_protein_g'' \<mapsto> VNum tp,
              ''Total_fiber_g'' \<mapsto> VNum (Fin tfi),
              ''Total_sodium_mg'' \<mapsto> VNum (Fin tna))"
      by (rule re_totals_Inr)
    have T: "''Total_kcal_target_kcal'' \<in> set totals" "''Total_carbs_g'' \<in> set totals"
      "''Total_fat_g'' \<in> set totals" "''Total_protein_g'' \<in> set totals"
      "''Total_fiber_g'' \<in> set totals" "''Total_sodium_mg'' \<in> set totals"
      by (simp_all add: totals_def)
    have n: "num_at (obj ++ u) ''Total_kcal_target_kcal'' = num_at u ''Total_kcal_target_kcal''"
      "num_at (obj ++ u) ''Total_carbs_g'' = num_at u ''Total_carbs_g''"
      "num_at (obj ++ u) ''Total_fat_g'' = num_at u ''Total_fat_g''"
      "num_at (obj ++ u) ''Total_protein_g'' = num_at u ''Total_protein_g''"
      "num_at (obj ++ u) ''Total_fiber_g'' = num_at u ''Total_fiber_g''"
      "num_at (obj ++ u) ''Total_sodium_mg'' = num_at u ''Total_sodium_mg''"
      unfolding ut by (simp_all add: num_at_def map_add_def)
    have f: "fold (set_meal_split sk sc sf sp sfi sna) (enumerate 0 meals)
               (fold (set_meal_name chosen) (enumerate 0 meals) (obj ++ u)) =
             obj ++ fold (set_meal_split sk sc sf sp sfi sna) (enumerate 0 meals)
               (fold (set_meal_name chosen) (enumerate 0 meals) u)"
      for sk sc sf sp sfi sna chosen
      unfolding split_fold names_fold by (simp only: map_add_upd)
    show ?thesis
      unfolding diversify_pass_def Let_def g0_def [symmetric]
      by (subst re_totals_frame)
        (simp only: Inr p emap_Inr ebind_Inr split_def fst_conv snd_conv emap_ebind
           num_at_names [OF T(1)] num_at_names [OF T(2)] num_at_names [OF T(3)]
           num_at_names [OF T(4)] num_at_names [OF T(5)] num_at_names [OF T(6)] n f)
  qed
qed

lemma pass_dict_cong:
  assumes "k \<in> set diet_keys"
  shows "pass_dict obj tk tc tf tp tfi tna chosen sk sc sf sp sfi sna k =
         pass_dict obj' tk tc tf tp tfi tna chosen sk sc sf sp sfi sna k"
  using assms
  unfolding pass_dict_def split_fold names_fold
  unfolding diet_keys_def totals_def mkeys_def meals_def set_simps insert_iff empty_iff
    list.map concat.simps append.simps
  by (elim disjE FalseE; simp only: lookup)

lemma pass_dict_twice:
  "pass_dict (pass_dict obj tk' tc' tf' tp' tfi' tna' chosen' sk' sc' sf' sp' sfi' sna')
     tk tc tf tp tfi tna chosen sk sc sf sp sfi sna =
   pass_dict obj tk tc tf tp tfi tna chosen sk sc sf sp sfi sna"
proof (rule ext)
  fix k
  show "pass_dict (pass_dict obj tk' tc' tf' tp' tfi' tna' chosen' sk' sc' sf' sp' sfi' sna')
     tk tc tf tp tfi tna chosen sk sc sf sp sfi sna k =
   pass_dict obj tk tc tf tp tfi tna chosen sk sc sf sp sfi sna k"
  proof (cases "k \<in> set diet_keys")
    case True
    then show ?thesis by (rule pass_dict_cong)
  next
    case False
    then show ?thesis by (simp add: pass_dict_other)
  qed
qed

lemma diversify_pass_restart:
  assumes "diversify_pass R tie fl obj pid week_id persona n = Inr c"
  shows "diversify_pass R tie fl c pid week_id persona m = diversify_pass R tie fl obj pid week_id persona m"
proof (cases "diversify_pass R tie fl Map.empty pid week_id persona m")
  case (Inl e)
  show ?thesis
    by (subst diversify_pass_frame, subst (2) diversify_pass_frame) (simp add: Inl)
next
  case (Inr u)
  have 1: "diversify_pass R tie fl c pid week_id persona m = Inr (c ++ u)"
    by (subst diversify_pass_frame) (simp add: Inr)
  have 2: "diversify_pass R tie fl obj pid week_id persona m = Inr (obj ++ u)"
    by (subst diversify_pass_frame) (simp add: Inr)
  from assms obtain tk' tc' tf' tp' tfi' tna' offset' chosen' sk' sc' sf' sp' sfi' sna' where
    c: "c = pass_dict obj (Fin tk') (Fin tc') (Fin tf') tp' (Fin tfi') (Fin tna') chosen'
              sk' sc' sf' sp' sfi' sna'"
    by (rule diversify_pass_form)
  from diversify_pass_eq_pass_dict [OF 2 1]
  obtain tk tc tf tp tfi tna chosen sk sc sf sp sfi sna where
    "obj ++ u = pass_dict obj tk tc tf tp tfi tna chosen sk sc sf sp sfi sna"
    "c ++ u = pass_dict c tk tc tf tp tfi tna chosen sk sc sf sp sfi sna"
    by blast
  then have "c ++ u = obj ++ u"
    unfolding c by (simp only: pass_dict_twice)
  with 1 2 show ?thesis by simp
qed

lemma diversify_meals_restart:
  assumes "diversify_pass R tie fl obj pid week_id persona n = Inr c"
  shows "diversify_meals R tie fl rp c pid week_id persona last_week m =
         diversify_meals R tie fl rp obj pid week_id persona last_week m"
  by (subst diversify_meals.simps, subst (2) diversify_meals.simps)
    (simp only: diversify_pass_restart [OF assms])

section \<open>Totals against the sums of the meals\<close>




lemma length_shares_of [simp]: "length (shares_of tie t ws) = length ws"
  by (simp add: shares_of_def)




lemma close_to_Fin [simp]: "close_to d (Fin a) (Fin b) \<longleftrightarrow> \<bar>a - b\<bar> \<le> d"
  by (auto simp add: close_to_def f_le_def fsub_def)

lemma close_to_NaN [simp]: "\<not> close_to d NaN b" "\<not> close_to d a NaN"
  by (cases b; simp add: close_to_def f_le_def fsub_def)
    (cases a; simp add: close_to_def f_le_def fsub_def)





section \<open>The nonce\<close>

lemma pass_dict_agree:
  assumes "\<forall>k. k \<notin> set diet_keys \<longrightarrow> obj k = obj' k"
  shows "pass_dict obj tk tc tf tp tfi tna chosen sk sc sf sp sfi sna =
         pass_dict obj' tk tc tf tp tfi tna chosen sk sc sf sp sfi sna"
proof (rule ext)
  fix k
  show "pass_dict obj tk tc tf tp tfi tna chosen sk sc sf sp sfi sna k =
         pass_dict obj' tk tc tf tp tfi tna chosen sk sc sf sp sfi sna k"
  proof (cases "k \<in> set diet_keys")
    case True
    then show ?thesis by (rule pass_dict_cong)
  next
    case False
    with assms show ?thesis by (simp add: pass_dict_other)
  qed
qed

lemma diversify_pass_agree:
  assumes "\<forall>k. k \<notin> set diet_keys \<longrightarrow> obj k = obj' k"
  shows "diversify_pass R tie fl obj pid week_id persona m =
         diversify_pass R tie fl obj' pid week_id persona m"
proof (cases "diversify_pass R tie fl Map.empty pid week_id persona m")
  case (Inl e)
  show ?thesis
    by (subst diversify_pass_frame, subst (2) diversify_pass_frame) (simp add: Inl)
next
  case (Inr u)
  have 1: "diversify_pass R tie fl obj pid week_id persona m = Inr (obj ++ u)"
    by (subst diversify_pass_frame) (simp add: Inr)
  have 2: "diversify_pass R tie fl obj' pid week_id persona m = Inr (obj' ++ u)"
    by (subst diversify_pass_frame) (simp add: Inr)
  from diversify_pass_eq_pass_dict [OF 1 2]
  obtain tk tc tf tp tfi tna chosen sk sc sf sp sfi sna where
    "obj ++ u = pass_dict obj tk tc tf tp tfi tna chosen sk sc sf sp sfi sna"
    "obj' ++ u = pass_dict obj' tk tc tf tp tfi tna chosen sk sc sf sp sfi sna"
    by blast
  with pass_dict_agree [OF assms] have "obj ++ u = obj' ++ u" by simp
  with 1 2 show ?thesis by simp
qed

lemma diversify_meals_agree:
  assumes "\<forall>k. k \<notin> set diet_keys \<longrightarrow> obj k = obj' k"
  shows "diversify_meals R tie fl rp obj pid week_id persona last_week m =
         diversify_meals R tie fl rp obj' pid week_id persona last_week m"
  by (subst diversify_meals.simps, subst (2) diversify_meals.simps)
    (simp only: diversify_pass_agree [OF assms])

lemma diversify_pass_outside:
  assumes "diversify_pass R tie fl obj pid week_id persona n = Inr c"
  shows "\<forall>k. k \<notin> set diet_keys \<longrightarrow> c k = obj k"
proof -
  from assms obtain tk tc tf tp tfi tna offset chosen sk sc sf sp sfi sna where
    "c = pass_dict obj (Fin tk) (Fin tc) (Fin tf) tp (Fin tfi) (Fin tna) chosen sk sc sf sp sfi sna"
    by (rule diversify_pass_form)
  then show ?thesis by (simp add: pass_dict_other)
qed

lemma diversify_meals_outside:
  assumes "diversify_meals R tie fl rp obj pid week_id persona last_week nonce = Some y"
  shows "\<forall>r. y = Inr r \<longrightarrow> (\<forall>k. k \<notin> set diet_keys \<longrightarrow> r k = obj k)"
proof (rule diversify_meals.raw_induct
    [where P = "\<lambda>R tie fl rp obj pid week_id persona last_week nonce y.
                  \<forall>r. y = Inr r \<longrightarrow> (\<forall>k. k \<notin> set diet_keys \<longrightarrow> r k = obj k)", OF _ assms])
  fix dm :: "'g pyrandom \<Rightarrow> (real \<Rightarrow> bool) \<Rightarrow> (string \<Rightarrow> pyfloat option) \<Rightarrow> (pyval \<Rightarrow> string)
     \<Rightarrow> pydict \<Rightarrow> string \<Rightarrow> string \<Rightarrow> pydict \<Rightarrow> pydict option \<Rightarrow> int
     \<Rightarrow> (py_error + pydict) option"
    and R tie fl rp obj pid week_id persona last_week nonce y
  assume IH: "\<And>R tie fl rp obj pid week_id persona last_week nonce y.
           dm R tie fl rp obj pid week_id persona last_week nonce = Some y \<Longrightarrow>
           \<forall>r. y = Inr r \<longrightarrow> (\<forall>k. k \<notin> set diet_keys \<longrightarrow> r k = obj k)"
    and body: "(case diversify_pass R tie fl obj pid week_id persona nonce of
        Inl e \<Rightarrow> Some (Inl e)
      | Inr obj' \<Rightarrow>
          (case all_meals_identical fl rp obj' of
             Inl e \<Rightarrow> Some (Inl e)
           | Inr ident \<Rightarrow>
               if ident \<or> similar_overview fl rp obj' last_week
               then dm R tie fl rp obj' pid week_id persona last_week (nonce + 1)
               else Some (Inr obj'))) = Some y"
  show "\<forall>r. y = Inr r \<longrightarrow> (\<forall>k. k \<notin> set diet_keys \<longrightarrow> r k = obj k)"
  proof (cases "diversify_pass R tie fl obj pid week_id persona nonce")
    case (Inl e)
    with body have "y = Inl e" by simp
    then show ?thesis by simp
  next
    case (Inr c)
    note pass = this
    note out = diversify_pass_outside [OF pass]
    show ?thesis
    proof (cases "all_meals_identical fl rp c")
      case (Inl e)
      with body pass have "y = Inl e" by simp
      then show ?thesis by simp
    next
      case (Inr ident)
      note id = this
      show ?thesis
      proof (cases "ident \<or> similar_overview fl rp c last_week")
        case True
        with body pass id have "dm R tie fl rp c pid week_id persona last_week (nonce + 1) = Some y"
          by simp
        then have "\<forall>r. y = Inr r \<longrightarrow> (\<forall>k. k \<notin> set diet_keys \<longrightarrow> r k = c k)"
          by (rule IH)
        with out show ?thesis by simp
      next
        case False
        with body pass id have "y = Inr c" by simp
        with out show ?thesis by simp
      qed
    qed
  qed
qed

lemma similar_self:
  assumes "diversify_pass R tie fl obj pid week_id persona n = Inr c"
  shows "similar_overview fl rp c (Some c)"
proof -
  from diversify_pass_meal_names(1,3) [OF assms]
  have "dget c ''1st_meal'' \<noteq> VStr []" "\<exists>s. dget c ''1st_meal'' = VStr s"
    by (auto simp add: meal_names_def meals_def)
  then have "c ''1st_meal'' \<noteq> None"
    by (cases "c ''1st_meal''") (auto simp add: dget_def)
  then have "c \<noteq> Map.empty" by auto
  moreover have "same_names rp c c"
    by (simp add: same_names_def list_all_iff)
  ultimately show ?thesis by (simp add: similar_overview_def)
qed

lemma mt_run_1:
  "diversify_meals mt_rng half_even no_float no_repr Map.empty ''P01'' ''Week_2025_47'' persona_mg (Some last0) 1 = Some (Inr diet1)"
proof -
  have "\<not> similar_overview no_float no_repr diet1 (Some last0)"
    by (simp add: similar_overview_def diet1_not_same_names diet1_not_close)
  from diversify_meals_stops [OF mt_pass_1 this]
  show ?thesis
    by (simp only: diversify_meals_restart [OF mt_pass_0])
qed

text \<open>
  C4, as stated, fails in its second half: calls that differ only in the nonce can return
  the same diet.  For persona \<open>P01\<close> in week \<open>Week_2025_47\<close> the library generator draws
  the name window at offset 8 for nonce 0 and at offset 4 for nonce 1.  Last week's diet
  \<open>last0\<close> has the four meal names of the window at offset 8, so the candidate of nonce 0
  is rejected and the call with nonce 0 returns what the call with nonce 1 returns.
\<close>

theorem C4_nonces_0_and_1_agree:
  "diversify_meals mt_rng half_even no_float no_repr Map.empty ''P01'' ''Week_2025_47'' persona_mg (Some last0) 0 = Some (Inr diet1)
   \<and> diversify_meals mt_rng half_even no_float no_repr Map.empty ''P01'' ''Week_2025_47'' persona_mg (Some last0) 1 = Some (Inr diet1)
   \<and> meal_names diet1 = [VStr ''Balila cup (chickpeas)'', VStr ''Grilled Hammour + rice + salad'',
        VStr ''Labneh + cucumbers + olives + bread'', VStr ''Tuna salad + lemon + olive oil'']"
  using mt_run mt_run_1 diet1_names by (intro conjI)

text \<open>
  C4, amended.  \<^verbatim>\<open>diversify_meals\<close> is deterministic: the result is a function of the
  arguments, and of the diet only the fields outside the 34 diet fields matter, so a
  second call on the dictionary that the first call has rewritten in place returns the
  same diet.  The nonce need not change the result: when the candidate of nonce \<open>n\<close> fails
  the final test, the call with nonce \<open>n\<close> returns what the call with nonce \<open>n + 1\<close> returns
  on the same arguments otherwise; this is so whenever last week's diet is the candidate
  of nonce \<open>n\<close> itself, whatever the generator draws.
\<close>

theorem C4_deterministic_not_nonce_sensitive:
  "((\<forall>k. k \<notin> set diet_keys \<longrightarrow> obj k = obj2 k) \<longrightarrow>
      diversify_meals R tie fl rp obj pid week_id persona last_week nonce
        = diversify_meals R tie fl rp obj2 pid week_id persona last_week nonce)
   \<and> (diversify_meals R tie fl rp obj pid week_id persona last_week nonce = Some (Inr r) \<longrightarrow>
      diversify_meals R tie fl rp r pid week_id persona last_week nonce = Some (Inr r))
   \<and> (diversify_pass R tie fl obj pid week_id persona nonce = Inr c \<longrightarrow>
        (all_meals_identical fl rp c = Inr True \<or> similar_overview fl rp c last_week \<longrightarrow>
           diversify_meals R tie fl rp obj pid week_id persona last_week nonce
             = diversify_meals R tie fl rp obj pid week_id persona last_week (nonce + 1))
        \<and> diversify_meals R tie fl rp obj pid week_id persona (Some c) nonce
             = diversify_meals R tie fl rp obj pid week_id persona (Some c) (nonce + 1))"
proof (intro conjI impI)
  assume "\<forall>k. k \<notin> set diet_keys \<longrightarrow> obj k = obj2 k"
  then show "diversify_meals R tie fl rp obj pid week_id persona last_week nonce
        = diversify_meals R tie fl rp obj2 pid week_id persona last_week nonce"
    by (rule diversify_meals_agree)
next
  assume ret: "diversify_meals R tie fl rp obj pid week_id persona last_week nonce = Some (Inr r)"
  from diversify_meals_outside [OF ret] have "\<forall>k. k \<notin> set diet_keys \<longrightarrow> r k = obj k"
    by simp
  from diversify_meals_agree [OF this, of R tie fl rp pid week_id persona last_week nonce] ret
  show "diversify_meals R tie fl rp r pid week_id persona last_week nonce = Some (Inr r)"
    by simp
next
  assume p: "diversify_pass R tie fl obj pid week_id persona nonce = Inr c"
    and t: "all_meals_identical fl rp c = Inr True \<or> similar_overview fl rp c last_week"
  from t have "diversify_meals R tie fl rp obj pid week_id persona last_week nonce =
        diversify_meals R tie fl rp c pid week_id persona last_week (nonce + 1)"
    by (subst diversify_meals.simps)
      (auto simp add: p diversify_pass_not_identical [OF p])
  then show "diversify_meals R tie fl rp obj pid week_id persona last_week nonce
             = diversify_meals R tie fl rp obj pid week_id persona last_week (nonce + 1)"
    by (simp only: diversify_meals_restart [OF p])
next
  assume p: "diversify_pass R tie fl obj pid week_id persona nonce = Inr c"
  have "diversify_meals R tie fl rp obj pid week_id persona (Some c) nonce =
        diversify_meals R tie fl rp c pid week_id persona (Some c) (nonce + 1)"
    by (rule diversify_meals_retries [OF p similar_self [OF p]])
  then show "diversify_meals R tie fl rp obj pid week_id persona (Some c) nonce
             = diversify_meals R tie fl rp obj pid week_id persona (Some c) (nonce + 1)"
    by (simp only: diversify_meals_restart [OF p])
qed

theorem C4_deterministic_not_nonce_sensitive_witness:
  "diversify_meals mt_rng half_even no_float no_repr Map.empty ''P01'' ''Week_2025_47'' persona_mg (Some last0) 0
       = diversify_meals mt_rng half_even no_float no_repr diet0 ''P01'' ''Week_2025_47''
           persona_mg (Some last0) 0
   \<and> diversify_meals mt_rng half_even no_float no_repr Map.empty ''P01'' ''Week_2025_47'' persona_mg (Some last0) 0 = Some (Inr diet1)
   \<and> diversify_meals mt_rng half_even no_float no_repr diet1 ''P01'' ''Week_2025_47''
           persona_mg (Some last0) 0 = Some (Inr diet1)
   \<and> diversify_pass mt_rng half_even no_float Map.empty ''P01'' ''Week_2025_47'' persona_mg 0
       = Inr diet0
   \<and> similar_overview no_float no_repr diet0 (Some last0)
   \<and> diversify_meals mt_rng half_even no_float no_repr Map.empty ''P01'' ''Week_2025_47'' persona_mg (Some last0) 0 = diversify_meals mt_rng half_even no_float no_repr Map.empty ''P01'' ''Week_2025_47'' persona_mg (Some last0) (0 + 1)
   \<and> diversify_meals mt_rng half_even no_float no_repr Map.empty ''P01'' ''Week_2025_47'' persona_mg (Some diet0) 0 = diversify_meals mt_rng half_even no_float no_repr Map.empty ''P01'' ''Week_2025_47'' persona_mg (Some diet0) (0 + 1)"
proof -
  have o: "\<forall>k. k \<notin> set diet_keys \<longrightarrow> Map.empty k = diet0 k"
    using diversify_pass_outside [OF mt_pass_0] by simp
  from C4_deterministic_not_nonce_sensitive [of Map.empty diet0 mt_rng half_even no_float
      no_repr "''P01''" "''Week_2025_47''" persona_mg "Some last0" 0 diet1 diet0]
    o mt_run mt_pass_0 diet0_similar
  show ?thesis by blast
qed

end
